theory Spec2Isabelle
  imports Complex_Main "HOL-Library.AList"
begin

section \<open>Perimeter-control driver: sampling, aggregation and cycle-synchronised actuation\<close>

text \<open>
  A shallow embedding of \<^verbatim>\<open>src/src/main.py\<close>. Python numbers (ints and floats) are
  idealised as \<^typ>\<open>real\<close>s, Python dictionaries are association lists in insertion order
  (\<^const>\<open>AList.update\<close> overwrites in place or appends, as a \<^verbatim>\<open>dict\<close> does), and
  every exception is a value of the type \<open>exn\<close>.
\<close>

subsection \<open>Exceptions\<close>

text \<open>
  \<^verbatim>\<open>traci.TraCIException\<close> carries the simulator's message. \<^verbatim>\<open>FatalTraCIError\<close> is
  an \<^verbatim>\<open>Exception\<close> that is not a \<^verbatim>\<open>TraCIException\<close>; \<^verbatim>\<open>IndexError\<close> and
  \<^verbatim>\<open>KeyError\<close> are raised by Python itself.
\<close>

datatype exn = TraCIException string | FatalTraCIError string | IndexError | KeyError

subsection \<open>The simulator, as the driver sees it through TraCI\<close>

record phase =
  duration :: real
  state :: string

record logic =
  programID :: string
  phases :: "phase list"

text \<open>
  Every query either answers or raises. \<open>getAllProgramLogics\<close> also stands for its
  deprecated alias \<^verbatim>\<open>getCompleteRedYellowGreenDefinition\<close>; \<open>setFault\<close> says whether
  writing a program for a traffic light raises, and \<open>written\<close> records every program
  the simulator has accepted, oldest first.
\<close>

record simulator =
  getAllProgramLogics :: "string \<Rightarrow> exn + logic list"
  getProgram :: "string \<Rightarrow> exn + string"
  getPhase :: "string \<Rightarrow> exn + int"
  getNextSwitch :: "string \<Rightarrow> exn + real"
  getTime :: "exn + real"
  getLastIntervalOccupancy :: "string \<Rightarrow> exn + real"
  getMinExpectedNumber :: "exn + int"
  setFault :: "string \<Rightarrow> exn option"
  written :: "(string \<times> logic) list"

fun replace_program :: "logic \<Rightarrow> logic list \<Rightarrow> logic list" where
  "replace_program l [] = [l]"
| "replace_program l (x # xs) =
     (if programID x = programID l then l # xs else x # replace_program l xs)"

text \<open>
  \<^verbatim>\<open>traci.trafficlight.setCompleteRedYellowGreenDefinition(tl_id, logic)\<close>: the whole
  program is handed over in one call; an accepted program replaces the definition with
  the same id and becomes the current one.
\<close>

definition setCompleteRedYellowGreenDefinition ::
  "simulator \<Rightarrow> string \<Rightarrow> logic \<Rightarrow> exn + simulator" where
  "setCompleteRedYellowGreenDefinition sim tl_id l =
     (case setFault sim tl_id of
        Some e \<Rightarrow> Inl e
      | None \<Rightarrow> Inr (sim\<lparr>
          getAllProgramLogics := (getAllProgramLogics sim)(tl_id :=
            (case getAllProgramLogics sim tl_id of
               Inl e \<Rightarrow> Inr [l]
             | Inr ls \<Rightarrow> Inr (replace_program l ls))),
          getProgram := (getProgram sim)(tl_id := Inr (programID l)),
          written := written sim @ [(tl_id, l)]\<rparr>))"

subsection \<open>Plans, phase layout and the configuration provider\<close>

text \<open>\<^verbatim>\<open>new_times\<close>: \<^verbatim>\<open>{'p': duration, 's': [durations]}\<close>.\<close>

record plan =
  p :: real
  s :: "real list"

text \<open>
  \<^verbatim>\<open>phase_info\<close>: \<open>p_phase_indices\<close> is
  \<^verbatim>\<open>phase_info.get('p', {}).get('phase_indices', [])\<close> and \<open>s_phase_indices\<close> holds, for
  each entry of \<^verbatim>\<open>phase_info.get('s', [])\<close>, its \<^verbatim>\<open>phase_indices\<close> (the empty list
  when the key is missing or falsy).
\<close>

record phase_info =
  p_phase_indices :: "int list"
  s_phase_indices :: "int list list"

text \<open>
  \<^verbatim>\<open>IntersectionConfigManager\<close> is not part of the sources at hand; the driver only
  calls its two lookups, each of which answers or returns nothing.
\<close>

record config_manager =
  get_traffic_light_id :: "string \<Rightarrow> string option"
  get_phase_info :: "string \<Rightarrow> phase_info option"

type_synonym pending = "(string \<times> plan) list"

subsection \<open>\<^verbatim>\<open>update_traffic_light_logic\<close>\<close>

text \<open>\<^verbatim>\<open>logic.phases[phase_index].duration = d\<close>\<close>

definition set_duration :: "phase list \<Rightarrow> int \<Rightarrow> real \<Rightarrow> phase list" where
  "set_duration ps phase_index d = ps[nat phase_index := (ps ! nat phase_index)\<lparr>duration := d\<rparr>]"

text \<open>The loop over \<^verbatim>\<open>main_phases\<close>.\<close>

fun update_main :: "int list \<Rightarrow> real \<Rightarrow> phase list \<Rightarrow> phase list" where
  "update_main [] d ps = ps"
| "update_main (phase_index # rest) d ps =
     update_main rest d
       (if 0 \<le> phase_index \<and> phase_index < int (length ps)
        then set_duration ps phase_index d else ps)"

text \<open>
  \<^verbatim>\<open>[s_phase['phase_indices'][0] for s_phase in ... if s_phase.get('phase_indices')]\<close>
\<close>

definition secondary_phases :: "int list list \<Rightarrow> int list" where
  "secondary_phases groups = map hd (filter (\<lambda>g. g \<noteq> []) groups)"

text \<open>The loop over \<^verbatim>\<open>enumerate(secondary_phases)\<close>, \<open>i\<close> being the running position.\<close>

fun update_secondary :: "nat \<Rightarrow> int list \<Rightarrow> real list \<Rightarrow> phase list \<Rightarrow> phase list" where
  "update_secondary i [] ds ps = ps"
| "update_secondary i (phase_index # rest) ds ps =
     update_secondary (Suc i) rest ds
       (if 0 \<le> phase_index \<and> phase_index < int (length ps) \<and> i < length ds
        then set_duration ps phase_index (ds ! i) else ps)"

definition apply_plan :: "logic \<Rightarrow> plan \<Rightarrow> phase_info \<Rightarrow> logic" where
  "apply_plan l new_times info =
     l\<lparr>phases :=
        update_secondary 0 (secondary_phases (s_phase_indices info)) (s new_times)
          (update_main (p_phase_indices info) (p new_times) (phases l))\<rparr>"

text \<open>
  The \<^verbatim>\<open>except traci.TraCIException\<close> of \<^verbatim>\<open>update_traffic_light_logic\<close>: the error is
  logged and the function returns with the simulator untouched; anything else escapes.
\<close>

definition log_traci_error :: "simulator \<Rightarrow> exn \<Rightarrow> exn + simulator" where
  "log_traci_error sim e = (case e of TraCIException m \<Rightarrow> Inr sim | _ \<Rightarrow> Inl e)"

definition update_traffic_light_logic ::
  "simulator \<Rightarrow> string \<Rightarrow> plan \<Rightarrow> phase_info \<Rightarrow> exn + simulator" where
  "update_traffic_light_logic sim tl_id new_times info =
     (case getAllProgramLogics sim tl_id of
        Inl e \<Rightarrow> log_traci_error sim e
      | Inr [] \<Rightarrow> Inl IndexError
      | Inr (l # _) \<Rightarrow>
          (case setCompleteRedYellowGreenDefinition sim tl_id (apply_plan l new_times info) of
             Inl e \<Rightarrow> log_traci_error sim e
           | Inr sim' \<Rightarrow> Inr sim'))"

subsection \<open>\<^verbatim>\<open>prepare_logic_update\<close>\<close>

text \<open>
  The hand-off dictionary: \<open>is_active\<close> is \<^verbatim>\<open>shared_dict.get('is_active', False)\<close>,
  \<open>green_times\<close> is \<open>None\<close> when the key is absent.
\<close>

record shared_dict =
  is_active :: bool
  green_times :: "pending option"

text \<open>\<^verbatim>\<open>pending_logic_updates.update(green_times)\<close>\<close>

definition dict_update :: "pending \<Rightarrow> pending \<Rightarrow> pending" where
  "dict_update pend g = fold (\<lambda>(k, v). AList.update k v) g pend"

definition prepare_logic_update :: "shared_dict \<times> pending \<Rightarrow> shared_dict \<times> pending" where
  "prepare_logic_update = (\<lambda>(sh, pend).
     if is_active sh then
       (case green_times sh of
          None \<Rightarrow> (sh, pend)
        | Some g \<Rightarrow> if g \<noteq> [] then (sh\<lparr>green_times := None\<rparr>, dict_update pend g)
                    else (sh, pend))
     else (sh, pend))"

subsection \<open>\<^verbatim>\<open>apply_pending_updates_on_cycle_start\<close>\<close>

text \<open>\<^verbatim>\<open>pat in msg\<close> on strings.\<close>

fun str_in :: "string \<Rightarrow> string \<Rightarrow> bool" where
  "str_in pat [] = (pat = [])"
| "str_in pat (c # cs) = (take (length pat) (c # cs) = pat \<or> str_in pat cs)"

text \<open>The trigger of line 164, from the values read at lines 155 to 157.\<close>

definition cycle_about_to_reset :: "int \<Rightarrow> nat \<Rightarrow> real \<Rightarrow> real \<Rightarrow> real \<Rightarrow> bool" where
  "cycle_about_to_reset current_phase_index num_phases next_switch now sim_step =
     (let time_to_next_switch = next_switch - now;
          is_last_phase = (current_phase_index = int num_phases - 1);
          is_about_to_reset = (time_to_next_switch \<le> sim_step)
      in is_last_phase \<and> is_about_to_reset)"

text \<open>
  The body of the \<^verbatim>\<open>try\<close> for one intersection whose traffic light \<open>tl_id\<close> is known.
  \<open>Inl\<close> is the exception that reaches the handlers.
\<close>

definition check_entry ::
  "config_manager \<Rightarrow> real \<Rightarrow> string \<Rightarrow> string \<Rightarrow> simulator \<times> pending \<Rightarrow>
     exn + simulator \<times> pending" where
  "check_entry cfg sim_step int_id tl_id = (\<lambda>(sim, pend).
     case getAllProgramLogics sim tl_id of Inl e \<Rightarrow> Inl e | Inr program_logics \<Rightarrow>
     (case getProgram sim tl_id of Inl e \<Rightarrow> Inl e | Inr current_program_id \<Rightarrow>
     (case find (\<lambda>l. programID l = current_program_id) program_logics of
        None \<Rightarrow> Inr (sim, pend)
      | Some current_logic \<Rightarrow>
     (case getPhase sim tl_id of Inl e \<Rightarrow> Inl e | Inr current_phase_index \<Rightarrow>
     (case getNextSwitch sim tl_id of Inl e \<Rightarrow> Inl e | Inr next_switch \<Rightarrow>
     (case getTime sim of Inl e \<Rightarrow> Inl e | Inr now \<Rightarrow>
        if cycle_about_to_reset current_phase_index (length (phases current_logic))
             next_switch now sim_step
        then
          (case map_of pend int_id of None \<Rightarrow> Inl KeyError | Some new_green_times \<Rightarrow>
          (case get_phase_info cfg int_id of
             None \<Rightarrow> Inr (sim, pend)
           | Some info \<Rightarrow>
               (case update_traffic_light_logic sim tl_id new_green_times info of
                  Inl e \<Rightarrow> Inl e
                | Inr sim' \<Rightarrow> Inr (sim', AList.delete int_id pend))))
        else Inr (sim, pend)))))))"

text \<open>
  One round of the \<^verbatim>\<open>for\<close> loop: the \<^verbatim>\<open>continue\<close> on an unresolved traffic light,
  the \<^verbatim>\<open>try\<close> body, and the two handlers.
\<close>

definition apply_entry ::
  "config_manager \<Rightarrow> real \<Rightarrow> string \<Rightarrow> simulator \<times> pending \<Rightarrow> simulator \<times> pending" where
  "apply_entry cfg sim_step int_id = (\<lambda>(sim, pend).
     case get_traffic_light_id cfg int_id of
       None \<Rightarrow> (sim, pend)
     | Some tl_id \<Rightarrow>
         if tl_id = [] then (sim, pend)
         else
           (case check_entry cfg sim_step int_id tl_id (sim, pend) of
              Inr st \<Rightarrow> st
            | Inl (TraCIException msg) \<Rightarrow>
                if str_in ''does not exist'' msg then (sim, AList.delete int_id pend)
                else (sim, pend)
            | Inl _ \<Rightarrow> (sim, pend)))"

definition apply_pending_updates_on_cycle_start ::
  "config_manager \<Rightarrow> real \<Rightarrow> simulator \<times> pending \<Rightarrow> simulator \<times> pending" where
  "apply_pending_updates_on_cycle_start cfg sim_step = (\<lambda>(sim, pend).
     fold (apply_entry cfg sim_step) (map fst pend) (sim, pend))"

subsection \<open>\<^verbatim>\<open>get_sum_from_traci_detectors\<close>\<close>

definition accumulation :: "real \<Rightarrow> real" where
  "accumulation space_occupancy =
     (let road_length = 80; average_length_of_vehicles = 3; num_lane = 1
      in road_length * (num_lane / (100 * average_length_of_vehicles)) * space_occupancy)"

fun sum_detectors :: "simulator \<Rightarrow> string list \<Rightarrow> real \<Rightarrow> exn + real" where
  "sum_detectors sim [] total_accumulation = Inr total_accumulation"
| "sum_detectors sim (det_id # rest) total_accumulation =
     (case getLastIntervalOccupancy sim det_id of
        Inl e \<Rightarrow> Inl e
      | Inr space_occupancy \<Rightarrow>
          sum_detectors sim rest (total_accumulation + accumulation space_occupancy))"

definition get_sum_from_traci_detectors :: "simulator \<Rightarrow> string list \<Rightarrow> exn + real" where
  "get_sum_from_traci_detectors sim detector_ids =
     (case sum_detectors sim detector_ids 0 of
        Inl (TraCIException m) \<Rightarrow> Inr 0
      | Inl e \<Rightarrow> Inl e
      | Inr total_accumulation \<Rightarrow> Inr total_accumulation)"

subsection \<open>Sample buffers\<close>

text \<open>
  \<^verbatim>\<open>queue_samples[int_id]\<close> is \<^verbatim>\<open>{'p': [...], 's': [[...], ...]}\<close>; the entry of
  \<^verbatim>\<open>solver_detectors\<close> for an intersection holds the queue detectors of its primary
  phase and of each secondary phase.
\<close>

record queue_buffers =
  p_samples :: "real list"
  s_samples :: "real list list"

record detector_groups =
  p_queue_detectors :: "string list"
  s_queue_detectors :: "string list list"

definition initialize_queue_samples ::
  "(string \<times> detector_groups) list \<Rightarrow> (string \<times> queue_buffers) list" where
  "initialize_queue_samples solver_detectors =
     fold (\<lambda>(int_id, int_details). AList.update int_id
             \<lparr>p_samples = [],
              s_samples = replicate (length (s_queue_detectors int_details)) []\<rparr>)
       solver_detectors []"

definition clear_samples ::
  "real list \<times> (string \<times> queue_buffers) list \<Rightarrow> real list \<times> (string \<times> queue_buffers) list" where
  "clear_samples = (\<lambda>(n_samples, queue_samples).
     ([], map (\<lambda>(int_id, b). (int_id, \<lparr>p_samples = [], s_samples = map (\<lambda>_. []) (s_samples b)\<rparr>))
            queue_samples))"

text \<open>\<^verbatim>\<open>sum(xs) / len(xs) if xs else 0\<close>\<close>

definition mean_or_zero :: "real list \<Rightarrow> real" where
  "mean_or_zero xs = (if xs \<noteq> [] then sum_list xs / real (length xs) else 0)"

subsection \<open>The simulation loop of \<^verbatim>\<open>run_sumo_simulation\<close>\<close>

text \<open>
  What the loop is given: the intervals, the detector groups, the configuration provider,
  and the two collaborators that are not part of the sources at hand, taken as
  parameters: \<open>sumo_step\<close> is \<^verbatim>\<open>SumoSim.step\<close> and \<open>run_simulation_step\<close> is
  \<^verbatim>\<open>PerimeterController.run_simulation_step\<close>, which receives the four arguments of the
  call and the hand-off dictionary, and gives back its own state, \<^verbatim>\<open>result.qg_new\<close>
  and the dictionary. \<open>CONTROL_INTERVAL_S\<close> is the constant imported from the
  controller's module.
\<close>

record aggregated_queue =
  avg_p :: real
  avg_s :: "real list"

record 'c environment =
  sampling_interval_s :: real
  aggregation_interval_s :: real
  CONTROL_INTERVAL_S :: real
  total_simulation_time :: real
  algorithm_detector_ids :: "string list"
  solver_detectors :: "(string \<times> detector_groups) list"
  intersection_config_mgr :: config_manager
  sumo_step :: "simulator \<Rightarrow> exn + simulator"
  run_simulation_step ::
    "'c \<Rightarrow> real \<Rightarrow> real \<Rightarrow> real \<Rightarrow> (string \<times> aggregated_queue) list \<Rightarrow> shared_dict \<Rightarrow>
       exn + 'c \<times> real \<times> shared_dict"

text \<open>
  The variables of the loop, the module-level \<^verbatim>\<open>pending_logic_updates\<close> and the
  simulator. \<open>events\<close> is a history variable that is not in the source: each stage adds
  its name when it runs, so that the order of the stages can be stated. The aggregation
  stage records \<^verbatim>\<open>len(n_samples)\<close>, the number that the source writes to its log at
  line 347.
\<close>

datatype stage = Sampling | Aggregation nat | Control | Actuation

record 'c loop_state =
  sim :: simulator
  pending_logic_updates :: pending
  shared :: shared_dict
  controller :: 'c
  sim_step :: real
  n_samples :: "real list"
  queue_samples :: "(string \<times> queue_buffers) list"
  latest_aggregated_n :: real
  latest_aggregated_queue_lengths :: "(string \<times> aggregated_queue) list"
  n_previous :: real
  qg_previous :: real
  next_sampling_time :: real
  next_aggregation_time :: real
  next_control_time :: real
  next_log_time :: real
  events :: "stage list"

text \<open>The inner loop over \<^verbatim>\<open>enumerate(phases.get('s', []))\<close> of the sampling stage.\<close>

fun sample_secondary ::
  "simulator \<Rightarrow> nat \<Rightarrow> string list list \<Rightarrow> real list list \<Rightarrow> exn + real list list" where
  "sample_secondary sm i [] bufs = Inr bufs"
| "sample_secondary sm i (s_detectors # rest) bufs =
     (if i < length bufs then
        (case get_sum_from_traci_detectors sm s_detectors of
           Inl e \<Rightarrow> Inl e
         | Inr v \<Rightarrow> sample_secondary sm (Suc i) rest (bufs[i := bufs ! i @ [v]]))
      else sample_secondary sm (Suc i) rest bufs)"

text \<open>The loop over \<^verbatim>\<open>solver_detectors.items()\<close> of the sampling stage.\<close>

fun sample_queues ::
  "simulator \<Rightarrow> (string \<times> detector_groups) list \<Rightarrow> (string \<times> queue_buffers) list \<Rightarrow>
     exn + (string \<times> queue_buffers) list" where
  "sample_queues sm [] qs = Inr qs"
| "sample_queues sm ((int_id, details) # rest) qs =
     (case get_sum_from_traci_detectors sm (p_queue_detectors details) of
        Inl e \<Rightarrow> Inl e
      | Inr v \<Rightarrow>
          (case map_of qs int_id of
             None \<Rightarrow> Inl KeyError
           | Some b \<Rightarrow>
               (case sample_secondary sm 0 (s_queue_detectors details) (s_samples b) of
                  Inl e \<Rightarrow> Inl e
                | Inr bufs \<Rightarrow>
                    sample_queues sm rest
                      (AList.update int_id \<lparr>p_samples = p_samples b @ [v], s_samples = bufs\<rparr> qs))))"

text \<open>Step 1 of the loop body (lines 317 to 331).\<close>

definition sampling_stage ::
  "'c environment \<Rightarrow> real \<Rightarrow> 'c loop_state \<Rightarrow> exn + 'c loop_state" where
  "sampling_stage env current_time st =
     (if current_time \<ge> next_sampling_time st then
        (case get_sum_from_traci_detectors (sim st) (algorithm_detector_ids env) of
           Inl e \<Rightarrow> Inl e
         | Inr v \<Rightarrow>
             (case sample_queues (sim st) (solver_detectors env) (queue_samples st) of
                Inl e \<Rightarrow> Inl e
              | Inr qs \<Rightarrow>
                  Inr (st\<lparr>n_samples := n_samples st @ [v],
                          queue_samples := qs,
                          next_sampling_time := next_sampling_time st + sampling_interval_s env,
                          events := events st @ [Sampling]\<rparr>)))
      else Inr st)"

text \<open>
  Step 2 of the loop body (lines 334 to 349). The plot and the log lines are left out.
\<close>

definition aggregation_stage ::
  "'c environment \<Rightarrow> real \<Rightarrow> 'c loop_state \<Rightarrow> 'c loop_state" where
  "aggregation_stage env current_time st =
     (if current_time \<ge> next_aggregation_time st then
        (let n' = (if n_samples st \<noteq> [] then sum_list (n_samples st) / real (length (n_samples st))
                   else latest_aggregated_n st);
             q' = fold (\<lambda>(int_id, data). AList.update int_id
                          \<lparr>avg_p = mean_or_zero (p_samples data),
                           avg_s = map mean_or_zero (s_samples data)\<rparr>)
                    (queue_samples st) (latest_aggregated_queue_lengths st);
             (ns, qs) = clear_samples (n_samples st, queue_samples st)
         in st\<lparr>latest_aggregated_n := n',
                latest_aggregated_queue_lengths := q',
                n_samples := ns,
                queue_samples := qs,
                next_aggregation_time := next_aggregation_time st + aggregation_interval_s env,
                events := events st @ [Aggregation (length (n_samples st))]\<rparr>)
      else st)"

text \<open>Step 3 of the loop body (lines 352 to 366).\<close>

definition control_stage ::
  "'c environment \<Rightarrow> real \<Rightarrow> 'c loop_state \<Rightarrow> exn + 'c loop_state" where
  "control_stage env current_time st =
     (if current_time \<ge> next_control_time st then
        (case run_simulation_step env (controller st) (latest_aggregated_n st) (n_previous st)
                (qg_previous st) (latest_aggregated_queue_lengths st) (shared st) of
           Inl e \<Rightarrow> Inl e
         | Inr (c', qg_new, sh) \<Rightarrow>
             (let (sh', pend') = prepare_logic_update (sh, pending_logic_updates st)
              in Inr (st\<lparr>controller := c',
                         shared := sh',
                         pending_logic_updates := pend',
                         qg_previous := qg_new,
                         n_previous := latest_aggregated_n st,
                         next_control_time := next_control_time st + CONTROL_INTERVAL_S env,
                         events := events st @ [Control]\<rparr>)))
      else Inr st)"

text \<open>Step 4 of the loop body (line 369), run at every step.\<close>

definition actuation_stage :: "'c environment \<Rightarrow> 'c loop_state \<Rightarrow> 'c loop_state" where
  "actuation_stage env st =
     (let (sim', pend') =
            apply_pending_updates_on_cycle_start (intersection_config_mgr env) (sim_step st)
              (sim st, pending_logic_updates st)
      in st\<lparr>sim := sim', pending_logic_updates := pend', events := events st @ [Actuation]\<rparr>)"

text \<open>
  One round of the \<^verbatim>\<open>while\<close> loop after its condition (lines 313 to 378). The
  boolean of the result is the \<^verbatim>\<open>break\<close> on the time budget.
\<close>

definition loop_body :: "'c environment \<Rightarrow> 'c loop_state \<Rightarrow> exn + 'c loop_state \<times> bool" where
  "loop_body env st =
     (case sumo_step env (sim st) of Inl e \<Rightarrow> Inl e | Inr sim1 \<Rightarrow>
     (case getTime sim1 of Inl e \<Rightarrow> Inl e | Inr current_time \<Rightarrow>
     (case sampling_stage env current_time (st\<lparr>sim := sim1\<rparr>) of Inl e \<Rightarrow> Inl e | Inr st1 \<Rightarrow>
     (case control_stage env current_time (aggregation_stage env current_time st1) of
        Inl e \<Rightarrow> Inl e
      | Inr st3 \<Rightarrow>
          (let st4 = actuation_stage env st3;
               st5 = (if current_time \<ge> next_log_time st4
                      then st4\<lparr>next_log_time := next_log_time st4 + 10\<rparr> else st4)
           in Inr (st5, current_time \<ge> total_simulation_time env))))))"

text \<open>
  The \<^verbatim>\<open>while\<close> loop, run for at most \<open>fuel\<close> rounds: it has ended, an exception has
  left it, or it is still running with the state reached.
\<close>

datatype 'c outcome = Ended "'c loop_state" | Raised exn | Running "'c loop_state"

fun simulation_loop :: "'c environment \<Rightarrow> nat \<Rightarrow> 'c loop_state \<Rightarrow> 'c outcome" where
  "simulation_loop env 0 st = Running st"
| "simulation_loop env (Suc fuel) st =
     (case getMinExpectedNumber (sim st) of
        Inl e \<Rightarrow> Raised e
      | Inr m \<Rightarrow>
          if m > 0 then
            (case loop_body env st of
               Inl e \<Rightarrow> Raised e
             | Inr (st', stop) \<Rightarrow> if stop then Ended st' else simulation_loop env fuel st')
          else Ended st)"

text \<open>The preparation of the loop (lines 286 to 307), from a started simulator.\<close>

definition initial_state ::
  "'c environment \<Rightarrow> 'c \<Rightarrow> shared_dict \<Rightarrow> pending \<Rightarrow> real \<Rightarrow> simulator \<Rightarrow> exn + 'c loop_state" where
  "initial_state env c sh pend delta_t sim0 =
     (case sumo_step env sim0 of Inl e \<Rightarrow> Inl e | Inr sim1 \<Rightarrow>
     (case get_sum_from_traci_detectors sim1 (algorithm_detector_ids env) of
        Inl e \<Rightarrow> Inl e
      | Inr n \<Rightarrow>
          Inr \<lparr>sim = sim1, pending_logic_updates = pend, shared = sh, controller = c,
               sim_step = delta_t, n_samples = [],
               queue_samples = initialize_queue_samples (solver_detectors env),
               latest_aggregated_n = n, latest_aggregated_queue_lengths = [],
               n_previous = n, qg_previous = 0,
               next_sampling_time = 0,
               next_aggregation_time = aggregation_interval_s env,
               next_control_time = CONTROL_INTERVAL_S env,
               next_log_time = 10, events = []\<rparr>))"

subsection \<open>A concrete junction\<close>

text \<open>
  One traffic light \<open>TL1\<close> with a single program of seven phases, in its last phase
  (index 6) one second before the switch. Every other traffic light is unknown to the
  simulator; the detector \<open>bad\<close> cannot be read, every other detector reports an
  occupancy of 50 percent.
\<close>

definition example_logic :: logic where
  "example_logic =
     \<lparr>programID = ''0'',
      phases = map (\<lambda>d. \<lparr>duration = d, state = ''G''\<rparr>) [20, 3, 25, 3, 15, 10, 4]\<rparr>"

definition example_sim :: simulator where
  "example_sim =
     \<lparr>getAllProgramLogics = (\<lambda>tl. if tl = ''TL1'' then Inr [example_logic]
                                 else Inl (TraCIException ''Traffic light does not exist'')),
      getProgram = (\<lambda>tl. if tl = ''TL1'' then Inr ''0''
                        else Inl (TraCIException ''Traffic light does not exist'')),
      getPhase = (\<lambda>tl. if tl = ''TL1'' then Inr 6
                      else Inl (TraCIException ''Traffic light does not exist'')),
      getNextSwitch = (\<lambda>tl. if tl = ''TL1'' then Inr 90
                           else Inl (TraCIException ''Traffic light does not exist'')),
      getTime = Inr 89,
      getLastIntervalOccupancy = (\<lambda>d. if d = ''bad'' then Inl (TraCIException ''unknown detector'')
                                      else Inr 50),
      getMinExpectedNumber = Inr 1,
      setFault = (\<lambda>tl. None),
      written = []\<rparr>"

text \<open>
  Phase layouts with irregular entries: indices outside the program and an empty secondary
  group; an empty secondary group before a proper one; an out-of-range index before a
  proper group; a secondary group of two indices followed by a group for which
  \<open>example_plan\<close> has no duration.
\<close>

definition lenient_info :: phase_info where
  "lenient_info = \<lparr>p_phase_indices = [2, 9, -1], s_phase_indices = [[5], [], [7]]\<rparr>"

definition shifted_info :: phase_info where
  "shifted_info = \<lparr>p_phase_indices = [2], s_phase_indices = [[], [5]]\<rparr>"

definition kept_info :: phase_info where
  "kept_info = \<lparr>p_phase_indices = [2], s_phase_indices = [[9], [5]]\<rparr>"

definition grouped_info :: phase_info where
  "grouped_info = \<lparr>p_phase_indices = [2], s_phase_indices = [[5, 4], [3]]\<rparr>"

text \<open>
  Intersection \<open>X\<close> is the spec's example (primary index 2, one secondary group with
  index 5); \<open>N\<close> has the same traffic light and no phase layout; the traffic light of
  \<open>Y\<close> is gone from the simulator; \<open>W\<close>, \<open>S\<close>, \<open>K\<close> and \<open>G\<close> have the irregular
  layouts; no other intersection has a traffic light.
\<close>

definition example_cfg :: config_manager where
  "example_cfg =
     \<lparr>get_traffic_light_id =
        (\<lambda>i. if i \<in> set [''X'', ''N'', ''W'', ''S'', ''K'', ''G''] then Some ''TL1''
             else if i = ''Y'' then Some ''TL_gone'' else None),
      get_phase_info = (\<lambda>i.
         if i = ''X'' then Some \<lparr>p_phase_indices = [2], s_phase_indices = [[5]]\<rparr>
         else if i = ''Y'' then Some \<lparr>p_phase_indices = [0], s_phase_indices = []\<rparr>
         else if i = ''W'' then Some lenient_info
         else if i = ''S'' then Some shifted_info
         else if i = ''K'' then Some kept_info
         else if i = ''G'' then Some grouped_info
         else None)\<rparr>"

definition example_plan :: plan where
  "example_plan = \<lparr>p = 30, s = [12]\<rparr>"

definition two_secondary_plan :: plan where
  "two_secondary_plan = \<lparr>p = 30, s = [10, 12]\<rparr>"

text \<open>
  A simulator that returns two definitions for \<open>TL1\<close>: a program of three phases first,
  and the current program, of seven phases, second.
\<close>

definition short_logic :: logic where
  "short_logic =
     \<lparr>programID = ''0'', phases = map (\<lambda>d. \<lparr>duration = d, state = ''G''\<rparr>) [20, 3, 25]\<rparr>"



subsection \<open>A concrete run\<close>

text \<open>
  Sampling every 10 seconds, aggregation every 50 seconds, a simulator that advances its
  clock by one second per step, and a controller that, when called, publishes
  \<open>example_plan\<close> for \<open>X\<close>.
\<close>

definition tick :: "simulator \<Rightarrow> exn + simulator" where
  "tick w = (case getTime w of Inl e \<Rightarrow> Inl e | Inr t \<Rightarrow> Inr (w\<lparr>getTime := Inr (t + 1)\<rparr>))"

definition example_env :: "unit environment" where
  "example_env =
     \<lparr>sampling_interval_s = 10,
      aggregation_interval_s = 50,
      CONTROL_INTERVAL_S = 90,
      total_simulation_time = 3600,
      algorithm_detector_ids = [''d1'', ''d2''],
      solver_detectors = [(''X'', \<lparr>p_queue_detectors = [''q1''], s_queue_detectors = [[''q2'']]\<rparr>)],
      intersection_config_mgr = example_cfg,
      sumo_step = tick,
      run_simulation_step = (\<lambda>c n n_prev qg q sh.
         Inr (c, qg, sh\<lparr>is_active := True, green_times := Some [(''X'', example_plan)]\<rparr>))\<rparr>"

definition empty_shared :: shared_dict where
  "empty_shared = \<lparr>is_active = False, green_times = None\<rparr>"

text \<open>The aggregation records of a history.\<close>

fun aggregation_counts :: "stage list \<Rightarrow> nat list" where
  "aggregation_counts [] = []"
| "aggregation_counts (Aggregation n # es) = n # aggregation_counts es"
| "aggregation_counts (e # es) = aggregation_counts es"

text \<open>
  The state that the loop has reached (or ended in) after at most \<open>fuel\<close> rounds, from
  the preparation with a simulator whose clock shows \<open>t0\<close>, a step length of one second,
  an empty hand-off dictionary and no pending plan.
\<close>

fun outcome_state :: "'c outcome \<Rightarrow> 'c loop_state option" where
  "outcome_state (Ended st) = Some st"
| "outcome_state (Running st) = Some st"
| "outcome_state (Raised e) = None"

definition example_run :: "unit environment \<Rightarrow> real \<Rightarrow> nat \<Rightarrow> unit loop_state option" where
  "example_run env t0 fuel =
     (case initial_state env () empty_shared [] 1 (example_sim\<lparr>getTime := Inr t0\<rparr>) of
        Inl e \<Rightarrow> None
      | Inr st0 \<Rightarrow> outcome_state (simulation_loop env fuel st0))"

text \<open>The phase durations of the programs that a simulator has accepted.\<close>

definition written_durations :: "simulator \<Rightarrow> (string \<times> real list) list" where
  "written_durations w = map (\<lambda>(t, l). (t, map duration (phases l))) (written w)"

text \<open>What the theorems below observe of a state of the loop.\<close>

definition run_summary ::
  "'c loop_state \<Rightarrow> nat list \<times> real list \<times> real \<times> real \<times> real \<times> pending \<times> (string \<times> real list) list" where
  "run_summary st =
     (aggregation_counts (events st), n_samples st, latest_aggregated_n st,
      next_sampling_time st, next_aggregation_time st, pending_logic_updates st,
      written_durations (sim st))"

text \<open>The same run with sampling every 30 seconds and aggregation every 10 seconds.\<close>

definition sparse_env :: "unit environment" where
  "sparse_env = example_env\<lparr>sampling_interval_s := 30, aggregation_interval_s := 10\<rparr>"

section \<open>The detector sampler\<close>

lemma sum_detectors_raises:
  "\<forall>d \<in> set pre. \<exists>v. getLastIntervalOccupancy w d = Inr v \<Longrightarrow>
   getLastIntervalOccupancy w d = Inl e \<Longrightarrow>
   sum_detectors w (pre @ d # post) acc = Inl e"
  by (induction pre arbitrary: acc) auto

lemma sum_detectors_answers:
  "\<forall>d \<in> set ds. getLastIntervalOccupancy w d = Inr (occ d) \<Longrightarrow>
   sum_detectors w ds acc = Inr (acc + sum_list (map (\<lambda>d. accumulation (occ d)) ds))"
  by (induction ds arbitrary: acc) (auto simp: add.assoc)

lemma accumulation_formula: "accumulation x = 80 * (1 / (100 * 3)) * x"
  by (simp add: accumulation_def)

lemma get_sum_answers:
  assumes "\<forall>d \<in> set ds. getLastIntervalOccupancy w d = Inr (occ d)"
  shows "get_sum_from_traci_detectors w ds = Inr (sum_list (map (\<lambda>d. accumulation (occ d)) ds))"
  using sum_detectors_answers [OF assms, of 0] by (simp add: get_sum_from_traci_detectors_def)

text \<open>
  Claim C5. The sum over no detectors is 0. The queries are made in the order of the
  list; when one of them raises a \<^verbatim>\<open>TraCIException\<close> (the detectors \<open>pre\<close> before it
  having answered), the call returns 0 whatever the detectors \<open>pre\<close> and \<open>post\<close> read,
  and it returns: the result is a value, not an exception.
\<close>

theorem get_sum_zero_when_empty_or_failed:
  "get_sum_from_traci_detectors w [] = Inr 0 \<and>
   ((\<forall>d \<in> set pre. \<exists>v. getLastIntervalOccupancy w d = Inr v) \<and>
    getLastIntervalOccupancy w d = Inl (TraCIException m)
    \<longrightarrow> get_sum_from_traci_detectors w (pre @ d # post) = Inr 0)"
  by (simp add: get_sum_from_traci_detectors_def sum_detectors_raises)

theorem get_sum_zero_when_empty_or_failed_witness:
  "getLastIntervalOccupancy example_sim ''d1'' = Inr 50 \<and>
   getLastIntervalOccupancy example_sim ''bad'' = Inl (TraCIException ''unknown detector'') \<and>
   getLastIntervalOccupancy example_sim ''d2'' = Inr 50 \<and>
   get_sum_from_traci_detectors example_sim [] = Inr 0 \<and>
   get_sum_from_traci_detectors example_sim [''d1'', ''bad'', ''d2''] = Inr 0"
  using get_sum_zero_when_empty_or_failed
    [of example_sim "[''d1'']" "''bad''" "''unknown detector''" "[''d2'']"]
  by (simp add: example_sim_def)

text \<open>
  Claim C9. When every detector of the group answers, with occupancy \<open>occ d\<close> for
  detector \<open>d\<close>, the sampler returns the sum over the group of
  \<open>80 * (1 / (100 * 3)) * occ d\<close>. One detector at 50 percent gives
  \<open>80 * (1 / 300) * 50 = 40 / 3\<close>, that is 13.33..., and two such detectors give
  \<open>80 / 3\<close>, that is 26.67... (over the reals; the source computes in floating point).
\<close>

theorem get_sum_is_sum_of_accumulations:
  "(\<forall>d \<in> set ds. getLastIntervalOccupancy w d = Inr (occ d)) \<longrightarrow>
     get_sum_from_traci_detectors w ds
       = Inr (sum_list (map (\<lambda>d. 80 * (1 / (100 * 3)) * occ d) ds)) \<and>
     (\<forall>d1. ds = [d1] \<and> occ d1 = 50 \<longrightarrow>
        get_sum_from_traci_detectors w ds = Inr (80 * (1 / 300) * 50) \<and>
        get_sum_from_traci_detectors w ds = Inr (40 / 3)) \<and>
     (\<forall>d1 d2. ds = [d1, d2] \<and> occ d1 = 50 \<and> occ d2 = 50 \<longrightarrow>
        get_sum_from_traci_detectors w ds = Inr (80 / 3))"
proof (intro impI)
  assume a: "\<forall>d \<in> set ds. getLastIntervalOccupancy w d = Inr (occ d)"
  have g: "get_sum_from_traci_detectors w ds = Inr (sum_list (map (\<lambda>d. accumulation (occ d)) ds))"
    by (rule get_sum_answers [OF a])
  have "get_sum_from_traci_detectors w ds
       = Inr (sum_list (map (\<lambda>d. 80 * (1 / (100 * 3)) * occ d) ds))"
    unfolding g accumulation_formula ..
  moreover have "\<forall>d1. ds = [d1] \<and> occ d1 = 50 \<longrightarrow>
        get_sum_from_traci_detectors w ds = Inr (80 * (1 / 300) * 50) \<and>
        get_sum_from_traci_detectors w ds = Inr (40 / 3)"
    unfolding g by (auto simp: accumulation_def)
  moreover have "\<forall>d1 d2. ds = [d1, d2] \<and> occ d1 = 50 \<and> occ d2 = 50 \<longrightarrow>
        get_sum_from_traci_detectors w ds = Inr (80 / 3)"
    unfolding g by (auto simp: accumulation_def)
  ultimately show "get_sum_from_traci_detectors w ds
       = Inr (sum_list (map (\<lambda>d. 80 * (1 / (100 * 3)) * occ d) ds)) \<and>
     (\<forall>d1. ds = [d1] \<and> occ d1 = 50 \<longrightarrow>
        get_sum_from_traci_detectors w ds = Inr (80 * (1 / 300) * 50) \<and>
        get_sum_from_traci_detectors w ds = Inr (40 / 3)) \<and>
     (\<forall>d1 d2. ds = [d1, d2] \<and> occ d1 = 50 \<and> occ d2 = 50 \<longrightarrow>
        get_sum_from_traci_detectors w ds = Inr (80 / 3))"
    by blast
qed

theorem get_sum_is_sum_of_accumulations_witness:
  "getLastIntervalOccupancy example_sim ''d1'' = Inr 50 \<and>
   getLastIntervalOccupancy example_sim ''d2'' = Inr 50 \<and>
   get_sum_from_traci_detectors example_sim [''d1'', ''d2''] = Inr (80 / 3) \<and>
   get_sum_from_traci_detectors example_sim [''d1''] = Inr (40 / 3) \<and>
   (13.33 :: real) < 40 / 3 \<and> (40 / 3 :: real) < 13.34 \<and>
   (26.66 :: real) < 80 / 3 \<and> (80 / 3 :: real) < 26.67"
proof -
  have a: "\<forall>d \<in> set [''d1'', ''d2'']. getLastIntervalOccupancy example_sim d = Inr ((\<lambda>_. 50) d)"
    by (simp add: example_sim_def)
  have b: "\<forall>d \<in> set [''d1'']. getLastIntervalOccupancy example_sim d = Inr ((\<lambda>_. 50) d)"
    by (simp add: example_sim_def)
  show ?thesis
    using a b
      get_sum_is_sum_of_accumulations [of "[''d1'', ''d2'']" example_sim "\<lambda>_. 50"]
      get_sum_is_sum_of_accumulations [of "[''d1'']" example_sim "\<lambda>_. 50"]
    by simp
qed

section \<open>Writing a plan into a signal program\<close>













lemma update_traffic_light_logic_writes:
  assumes "getAllProgramLogics w tid = Inr (l # ls)" "setFault w tid = None"
  shows "\<exists>w'. update_traffic_light_logic w tid pl info = Inr w' \<and>
              written w' = written w @ [(tid, apply_plan l pl info)]"
  using assms
  by (simp add: update_traffic_light_logic_def setCompleteRedYellowGreenDefinition_def)









lemma example_update:
  "update_traffic_light_logic example_sim ''TL1'' pl info =
     Inr (example_sim\<lparr>
       getAllProgramLogics := (getAllProgramLogics example_sim)
          (''TL1'' := Inr [apply_plan example_logic pl info]),
       getProgram := (getProgram example_sim)(''TL1'' := Inr ''0''),
       written := [(''TL1'', apply_plan example_logic pl info)]\<rparr>)"
  by (simp add: update_traffic_light_logic_def setCompleteRedYellowGreenDefinition_def
      example_sim_def example_logic_def apply_plan_def)

lemma example_durations:
  "map duration (phases (apply_plan example_logic example_plan grouped_info))
     = [20, 3, 30, 3, 15, 12, 4]"
  "map duration (phases (apply_plan example_logic example_plan lenient_info))
     = [20, 3, 30, 3, 15, 12, 4]"
  "map duration (phases (apply_plan example_logic two_secondary_plan shifted_info))
     = [20, 3, 30, 3, 15, 10, 4]"
  "map duration (phases (apply_plan example_logic two_secondary_plan kept_info))
     = [20, 3, 30, 3, 15, 12, 4]"
  "map duration (phases (apply_plan short_logic example_plan
      \<lparr>p_phase_indices = [2, 5], s_phase_indices = []\<rparr>)) = [20, 3, 30]"
  by (simp_all add: example_logic_def short_logic_def example_plan_def two_secondary_plan_def
      grouped_info_def lenient_info_def shifted_info_def kept_info_def apply_plan_def
      secondary_phases_def set_duration_def)





lemma check_entry_reads:
  assumes "getAllProgramLogics w tid = Inr lgs" "getProgram w tid = Inr pid"
    "find (\<lambda>l. programID l = pid) lgs = Some cur"
    "getPhase w tid = Inr ph" "getNextSwitch w tid = Inr nsw" "getTime w = Inr now"
  shows "check_entry cfg step x tid (w, pend) =
     (if cycle_about_to_reset ph (length (phases cur)) nsw now step
      then
        (case map_of pend x of None \<Rightarrow> Inl KeyError | Some new_green_times \<Rightarrow>
        (case get_phase_info cfg x of
           None \<Rightarrow> Inr (w, pend)
         | Some info \<Rightarrow>
             (case update_traffic_light_logic w tid new_green_times info of
                Inl e \<Rightarrow> Inl e
              | Inr w' \<Rightarrow> Inr (w', AList.delete x pend))))
      else Inr (w, pend))"
  using assms by (simp add: check_entry_def)

lemma apply_entry_resolved:
  assumes "get_traffic_light_id cfg x = Some tid" "tid \<noteq> []"
  shows "apply_entry cfg step x (w, pend) =
     (case check_entry cfg step x tid (w, pend) of
        Inr st \<Rightarrow> st
      | Inl (TraCIException msg) \<Rightarrow>
          if str_in ''does not exist'' msg then (w, AList.delete x pend) else (w, pend)
      | Inl _ \<Rightarrow> (w, pend))"
  using assms by (simp add: apply_entry_def)

lemma cycle_about_to_reset_iff:
  "cycle_about_to_reset ph n nsw now step \<longleftrightarrow> ph = int n - 1 \<and> nsw - now \<le> step"
  by (simp add: cycle_about_to_reset_def)

section \<open>The cycle-synchronised actuator\<close>

text \<open>
  Claim C1, amended. For an intersection with a pending plan whose traffic light is
  resolved, whose five simulator queries answer, whose current program is among the
  definitions, whose phase layout is present and whose program the simulator accepts when
  it is written, the plan is applied (the program \<open>apply_plan l pl info\<close> reaches the
  simulator) and its entry is consumed if and only if the current phase index is the phase
  count minus 1 and the time to the next switch is at most one step; otherwise the
  simulator and the store are left as they were, and so they are in any earlier phase,
  however small the time to the next switch.
\<close>

theorem plan_applied_iff_cycle_about_to_reset:
  assumes "get_traffic_light_id cfg x = Some tid" "tid \<noteq> []"
    and "getAllProgramLogics w tid = Inr (l # ls)" "getProgram w tid = Inr pid"
    and "find (\<lambda>d. programID d = pid) (l # ls) = Some cur"
    and "getPhase w tid = Inr ph" "getNextSwitch w tid = Inr nsw" "getTime w = Inr now"
    and "map_of pend x = Some pl" "get_phase_info cfg x = Some info"
    and "setFault w tid = None"
  shows "(ph = int (length (phases cur)) - 1 \<and> nsw - now \<le> step \<longrightarrow>
            (\<exists>w'. apply_entry cfg step x (w, pend) = (w', AList.delete x pend) \<and>
                  written w' = written w @ [(tid, apply_plan l pl info)])) \<and>
         (\<not> (ph = int (length (phases cur)) - 1 \<and> nsw - now \<le> step) \<longrightarrow>
            apply_entry cfg step x (w, pend) = (w, pend)) \<and>
         (written (fst (apply_entry cfg step x (w, pend)))
            = written w @ [(tid, apply_plan l pl info)]
            \<longleftrightarrow> ph = int (length (phases cur)) - 1 \<and> nsw - now \<le> step) \<and>
         (map_of (snd (apply_entry cfg step x (w, pend))) x = None
            \<longleftrightarrow> ph = int (length (phases cur)) - 1 \<and> nsw - now \<le> step) \<and>
         (ph < int (length (phases cur)) - 1 \<longrightarrow> apply_entry cfg step x (w, pend) = (w, pend))"
proof -
  obtain w' where w': "update_traffic_light_logic w tid pl info = Inr w'"
      "written w' = written w @ [(tid, apply_plan l pl info)]"
    using update_traffic_light_logic_writes [OF assms(3) assms(11)] by blast
  have e: "apply_entry cfg step x (w, pend) =
           (if ph = int (length (phases cur)) - 1 \<and> nsw - now \<le> step
            then (w', AList.delete x pend) else (w, pend))"
    using assms w'(1)
    by (simp add: apply_entry_resolved check_entry_reads cycle_about_to_reset_iff)
  have d: "map_of (AList.delete x pend) x = None"
    by (simp add: delete_conv')
  show ?thesis
  proof (cases "ph = int (length (phases cur)) - 1 \<and> nsw - now \<le> step")
    case True
    have "apply_entry cfg step x (w, pend) = (w', AList.delete x pend)"
      unfolding e if_P [OF True] ..
    then show ?thesis using True w'(2) d by auto
  next
    case False
    have "apply_entry cfg step x (w, pend) = (w, pend)"
      unfolding e if_not_P [OF False] ..
    then show ?thesis using False assms(9) by auto
  qed
qed

text \<open>
  Claim C1 as stated fails where the phase layout is absent: intersection \<open>N\<close> is in its
  last phase, one step before the switch, and its plan is neither applied nor consumed.
\<close>

theorem plan_applied_iff_cycle_about_to_reset_counterexample:
  "get_traffic_light_id example_cfg ''N'' = Some ''TL1'' \<and>
   getProgram example_sim ''TL1'' = Inr ''0'' \<and>
   getAllProgramLogics example_sim ''TL1'' = Inr [example_logic] \<and>
   getPhase example_sim ''TL1'' = Inr (int (length (phases example_logic)) - 1) \<and>
   getNextSwitch example_sim ''TL1'' = Inr 90 \<and> getTime example_sim = Inr 89 \<and>
   (90 :: real) - 89 \<le> 1 \<and>
   get_phase_info example_cfg ''N'' = None \<and>
   apply_entry example_cfg 1 ''N'' (example_sim, [(''N'', example_plan)])
     = (example_sim, [(''N'', example_plan)])"
  by (simp add: apply_entry_def check_entry_def cycle_about_to_reset_def example_cfg_def
      example_sim_def example_logic_def)

theorem plan_applied_iff_cycle_about_to_reset_witness:
  "get_traffic_light_id example_cfg ''X'' = Some ''TL1'' \<and>
   getAllProgramLogics example_sim ''TL1'' = Inr [example_logic] \<and>
   getProgram example_sim ''TL1'' = Inr ''0'' \<and>
   find (\<lambda>d. programID d = ''0'') [example_logic] = Some example_logic \<and>
   getPhase example_sim ''TL1'' = Inr 6 \<and> length (phases example_logic) = 7 \<and>
   getNextSwitch example_sim ''TL1'' = Inr 90 \<and> getTime example_sim = Inr 89 \<and>
   map_of [(''X'', example_plan)] ''X'' = Some example_plan \<and>
   get_phase_info example_cfg ''X'' = Some \<lparr>p_phase_indices = [2], s_phase_indices = [[5]]\<rparr> \<and>
   setFault example_sim ''TL1'' = None \<and>
   snd (apply_entry example_cfg 1 ''X'' (example_sim, [(''X'', example_plan)])) = [] \<and>
   written (fst (apply_entry example_cfg 1 ''X'' (example_sim, [(''X'', example_plan)])))
     = [(''TL1'', apply_plan example_logic example_plan
                   \<lparr>p_phase_indices = [2], s_phase_indices = [[5]]\<rparr>)] \<and>
   apply_entry example_cfg 1 ''X''
       (example_sim\<lparr>getPhase := \<lambda>t. Inr 5, getNextSwitch := \<lambda>t. Inr 89\<rparr>, [(''X'', example_plan)])
     = (example_sim\<lparr>getPhase := \<lambda>t. Inr 5, getNextSwitch := \<lambda>t. Inr 89\<rparr>, [(''X'', example_plan)])"
proof -
  let ?info = "\<lparr>p_phase_indices = [2], s_phase_indices = [[5]]\<rparr>"
  let ?v = "example_sim\<lparr>getPhase := \<lambda>t. Inr 5, getNextSwitch := \<lambda>t. Inr 89\<rparr>"
  let ?pend = "[(''X'', example_plan)]"
  have a: "get_traffic_light_id example_cfg ''X'' = Some ''TL1''" "''TL1'' \<noteq> []"
    "get_phase_info example_cfg ''X'' = Some ?info"
    by (simp_all add: example_cfg_def)
  have b: "getAllProgramLogics example_sim ''TL1'' = Inr [example_logic]"
    "getProgram example_sim ''TL1'' = Inr ''0''"
    "getPhase example_sim ''TL1'' = Inr 6" "getNextSwitch example_sim ''TL1'' = Inr 90"
    "getTime example_sim = Inr 89" "setFault example_sim ''TL1'' = None"
    "written example_sim = []"
    by (simp_all add: example_sim_def)
  have c: "find (\<lambda>d. programID d = ''0'') [example_logic] = Some example_logic"
    "length (phases example_logic) = 7"
    by (simp_all add: example_logic_def)
  have d: "map_of ?pend ''X'' = Some example_plan" by simp
  have b': "getAllProgramLogics ?v ''TL1'' = Inr [example_logic]"
    "getProgram ?v ''TL1'' = Inr ''0''"
    "getPhase ?v ''TL1'' = Inr 5" "getNextSwitch ?v ''TL1'' = Inr 89"
    "getTime ?v = Inr 89" "setFault ?v ''TL1'' = None"
    by (simp_all add: example_sim_def)
  note t1 = plan_applied_iff_cycle_about_to_reset [OF a(1,2) b(1,2) c(1) b(3,4,5) d a(3) b(6), of 1]
  note t2 = plan_applied_iff_cycle_about_to_reset [OF a(1,2) b'(1,2) c(1) b'(3,4,5) d a(3) b'(6), of 1]
  have k1: "(6 :: int) = int (length (phases example_logic)) - 1 \<and> (90 :: real) - 89 \<le> 1"
    by (simp add: c(2))
  have k2: "\<not> ((5 :: int) = int (length (phases example_logic)) - 1 \<and> (89 :: real) - 89 \<le> 1)"
    by (simp add: c(2))
  from t1 k1 obtain w' where w': "apply_entry example_cfg 1 ''X'' (example_sim, ?pend)
         = (w', AList.delete ''X'' ?pend)"
      "written w' = written example_sim @ [(''TL1'', apply_plan example_logic example_plan ?info)]"
    by blast
  from t2 k2 have r2: "apply_entry example_cfg 1 ''X'' (?v, ?pend) = (?v, ?pend)"
    by blast
  show ?thesis
    unfolding w'(1) r2
    using a(1,3) b c d w'(2) by (simp add: AList.delete_eq)
qed

lemma example_apply_entry:
  assumes "get_traffic_light_id example_cfg x = Some ''TL1''"
    "get_phase_info example_cfg x = Some info" "map_of pend x = Some pl"
  shows "apply_entry example_cfg 1 x (example_sim, pend) =
     (example_sim\<lparr>
        getAllProgramLogics := (getAllProgramLogics example_sim)
           (''TL1'' := Inr [apply_plan example_logic pl info]),
        getProgram := (getProgram example_sim)(''TL1'' := Inr ''0''),
        written := [(''TL1'', apply_plan example_logic pl info)]\<rparr>,
      AList.delete x pend)"
proof -
  have b: "getAllProgramLogics example_sim ''TL1'' = Inr [example_logic]"
    "getProgram example_sim ''TL1'' = Inr ''0''"
    "getPhase example_sim ''TL1'' = Inr 6" "getNextSwitch example_sim ''TL1'' = Inr 90"
    "getTime example_sim = Inr 89"
    by (simp_all add: example_sim_def)
  have c: "find (\<lambda>l. programID l = ''0'') [example_logic] = Some example_logic"
    by (simp add: example_logic_def)
  have r: "cycle_about_to_reset 6 (length (phases example_logic)) 90 89 1"
    by (simp add: cycle_about_to_reset_def example_logic_def)
  have "check_entry example_cfg 1 x ''TL1'' (example_sim, pend) =
     Inr (example_sim\<lparr>
        getAllProgramLogics := (getAllProgramLogics example_sim)
           (''TL1'' := Inr [apply_plan example_logic pl info]),
        getProgram := (getProgram example_sim)(''TL1'' := Inr ''0''),
        written := [(''TL1'', apply_plan example_logic pl info)]\<rparr>,
      AList.delete x pend)"
    unfolding check_entry_reads [OF b(1,2) c b(3,4,5)]
    using r assms(2,3) by (simp add: example_update)
  then show ?thesis
    using assms(1) by (simp add: apply_entry_resolved)
qed

text \<open>
  Claim C2 at a layout with an empty secondary group, by evaluation of the code. With the
  groups \<open>[[], [5]]\<close> and the secondary durations \<open>[10, 12]\<close> the trigger fires, the
  entry is consumed, and the program written gives phase 5 the duration 10, the entry at
  position 0, where the claim gives the group at position 1 the entry at position 1, which
  is 12. The guard on the range, which is inside the loop, keeps the positions: with the
  groups \<open>[[9], [5]]\<close> phase 5 gets 12.
\<close>

theorem empty_group_shifts_secondary_durations:
  "get_phase_info example_cfg ''S'' = Some shifted_info \<and>
   s_phase_indices shifted_info = [[], [5]] \<and> s two_secondary_plan = [10, 12] \<and>
   snd (apply_entry example_cfg 1 ''S'' (example_sim, [(''S'', two_secondary_plan)])) = [] \<and>
   written_durations
     (fst (apply_entry example_cfg 1 ''S'' (example_sim, [(''S'', two_secondary_plan)])))
     = [(''TL1'', [20, 3, 30, 3, 15, 10, 4])] \<and>
   get_phase_info example_cfg ''K'' = Some kept_info \<and>
   s_phase_indices kept_info = [[9], [5]] \<and>
   written_durations
     (fst (apply_entry example_cfg 1 ''K'' (example_sim, [(''K'', two_secondary_plan)])))
     = [(''TL1'', [20, 3, 30, 3, 15, 12, 4])]"
proof -
  have a: "get_traffic_light_id example_cfg ''S'' = Some ''TL1''"
    "get_phase_info example_cfg ''S'' = Some shifted_info"
    "get_traffic_light_id example_cfg ''K'' = Some ''TL1''"
    "get_phase_info example_cfg ''K'' = Some kept_info"
    by (simp_all add: example_cfg_def)
  have d: "map_of [(''S'', two_secondary_plan)] ''S'' = Some two_secondary_plan"
    "map_of [(''K'', two_secondary_plan)] ''K'' = Some two_secondary_plan"
    by simp_all
  have i: "s_phase_indices shifted_info = [[], [5]]" "s two_secondary_plan = [10, 12]"
    "s_phase_indices kept_info = [[9], [5]]"
    by (simp_all add: shifted_info_def kept_info_def two_secondary_plan_def)
  show ?thesis
    unfolding example_apply_entry [OF a(1,2) d(1)] example_apply_entry [OF a(3,4) d(2)]
    using a(2,4) i
    by (simp add: AList.delete_eq written_durations_def example_durations)
qed


lemma check_entry_without_phase_info:
  assumes "get_phase_info cfg y = None"
  shows "check_entry cfg step y tid (w, pend) = Inr (w, pend) \<or>
         (\<exists>e. check_entry cfg step y tid (w, pend) = Inl e)"
  using assms by (auto simp: check_entry_def split: sum.splits option.splits)

lemma apply_entry_absorbs:
  assumes "get_traffic_light_id cfg y = Some tid" "tid \<noteq> []"
    "check_entry cfg step y tid (w, pend) = Inl e"
  shows "apply_entry cfg step y (w, pend) =
     (w, if \<exists>msg. e = TraCIException msg \<and> str_in ''does not exist'' msg
         then AList.delete y pend else pend)"
  using assms by (cases e) (simp_all add: apply_entry_resolved)

text \<open>
  Claim C7. In the actuation pass each entry is handled on its own. When a simulator query
  for the entry raises a \<^verbatim>\<open>TraCIException\<close> whose message says that the traffic light
  does not exist (the first query, or any query of the check), the entry is removed and
  the simulator is left as it was. When the traffic-light id is not resolved, or the phase
  layout is absent and the simulator reports no such fault, the entry and the simulator
  are left as they were. Whatever exception the check of an entry raises, the round ends
  with a state in which the simulator is untouched, so no exception leaves the pass; and
  the pass over a store \<open>pre @ (y, pl) # post\<close> goes on with every entry of \<open>post\<close>
  after the round for \<open>y\<close>.
\<close>

theorem actuation_faults_handled_per_entry:
  "(get_traffic_light_id cfg y = Some tid \<and> tid \<noteq> [] \<and>
    getAllProgramLogics w tid = Inl (TraCIException msg) \<and> str_in ''does not exist'' msg
    \<longrightarrow> apply_entry cfg step y (w, pend) = (w, AList.delete y pend)) \<and>
   (get_traffic_light_id cfg y = Some tid \<and> tid \<noteq> [] \<and>
    check_entry cfg step y tid (w, pend) = Inl (TraCIException msg) \<and>
    str_in ''does not exist'' msg
    \<longrightarrow> apply_entry cfg step y (w, pend) = (w, AList.delete y pend)) \<and>
   (get_traffic_light_id cfg y = None \<or> get_traffic_light_id cfg y = Some []
    \<longrightarrow> apply_entry cfg step y (w, pend) = (w, pend)) \<and>
   (get_traffic_light_id cfg y = Some tid \<and> get_phase_info cfg y = None \<and>
    (\<forall>m. check_entry cfg step y tid (w, pend) = Inl (TraCIException m)
         \<longrightarrow> \<not> str_in ''does not exist'' m)
    \<longrightarrow> apply_entry cfg step y (w, pend) = (w, pend)) \<and>
   (get_traffic_light_id cfg y = Some tid \<and> tid \<noteq> [] \<and>
    check_entry cfg step y tid (w, pend) = Inl e
    \<longrightarrow> apply_entry cfg step y (w, pend) =
         (w, if \<exists>m. e = TraCIException m \<and> str_in ''does not exist'' m
             then AList.delete y pend else pend)) \<and>
   apply_pending_updates_on_cycle_start cfg step (w, pre @ (y, pl) # post) =
     fold (apply_entry cfg step) (map fst post)
       (apply_entry cfg step y
          (fold (apply_entry cfg step) (map fst pre) (w, pre @ (y, pl) # post)))"
proof (intro conjI impI)
  assume a: "get_traffic_light_id cfg y = Some tid \<and> tid \<noteq> [] \<and>
    getAllProgramLogics w tid = Inl (TraCIException msg) \<and> str_in ''does not exist'' msg"
  then have "check_entry cfg step y tid (w, pend) = Inl (TraCIException msg)"
    by (simp add: check_entry_def)
  with a show "apply_entry cfg step y (w, pend) = (w, AList.delete y pend)"
    by (simp add: apply_entry_resolved)
next
  assume "get_traffic_light_id cfg y = Some tid \<and> tid \<noteq> [] \<and>
    check_entry cfg step y tid (w, pend) = Inl (TraCIException msg) \<and>
    str_in ''does not exist'' msg"
  then show "apply_entry cfg step y (w, pend) = (w, AList.delete y pend)"
    by (simp add: apply_entry_resolved)
next
  assume "get_traffic_light_id cfg y = None \<or> get_traffic_light_id cfg y = Some []"
  then show "apply_entry cfg step y (w, pend) = (w, pend)"
    by (auto simp: apply_entry_def)
next
  assume a: "get_traffic_light_id cfg y = Some tid \<and> get_phase_info cfg y = None \<and>
    (\<forall>m. check_entry cfg step y tid (w, pend) = Inl (TraCIException m)
         \<longrightarrow> \<not> str_in ''does not exist'' m)"
  show "apply_entry cfg step y (w, pend) = (w, pend)"
  proof (cases "tid = []")
    case True
    with a show ?thesis by (simp add: apply_entry_def)
  next
    case False
    from a have "check_entry cfg step y tid (w, pend) = Inr (w, pend) \<or>
         (\<exists>e. check_entry cfg step y tid (w, pend) = Inl e)"
      by (simp add: check_entry_without_phase_info)
    then show ?thesis
    proof
      assume "check_entry cfg step y tid (w, pend) = Inr (w, pend)"
      with a False show ?thesis by (simp add: apply_entry_resolved)
    next
      assume "\<exists>e. check_entry cfg step y tid (w, pend) = Inl e"
      then obtain e where e: "check_entry cfg step y tid (w, pend) = Inl e" ..
      have ne: "\<not> (\<exists>m. e = TraCIException m \<and> str_in ''does not exist'' m)"
        using a e by auto
      have "apply_entry cfg step y (w, pend) =
         (w, if \<exists>m. e = TraCIException m \<and> str_in ''does not exist'' m
             then AList.delete y pend else pend)"
        using a False e by (intro apply_entry_absorbs) simp_all
      then show ?thesis
        unfolding if_not_P [OF ne] .
    qed
  qed
next
  assume "get_traffic_light_id cfg y = Some tid \<and> tid \<noteq> [] \<and>
    check_entry cfg step y tid (w, pend) = Inl e"
  then show "apply_entry cfg step y (w, pend) =
         (w, if \<exists>m. e = TraCIException m \<and> str_in ''does not exist'' m
             then AList.delete y pend else pend)"
    by (simp add: apply_entry_absorbs)
next
  show "apply_pending_updates_on_cycle_start cfg step (w, pre @ (y, pl) # post) =
     fold (apply_entry cfg step) (map fst post)
       (apply_entry cfg step y
          (fold (apply_entry cfg step) (map fst pre) (w, pre @ (y, pl) # post)))"
    by (simp add: apply_pending_updates_on_cycle_start_def)
qed

lemma does_not_exist_in_message: "str_in ''does not exist'' ''Traffic light does not exist''"
  by simp

lemma example_pass:
  "apply_pending_updates_on_cycle_start example_cfg 1
     (example_sim, [(''Y'', example_plan), (''U'', example_plan), (''N'', example_plan),
                    (''X'', example_plan)])
   = (example_sim\<lparr>
        getAllProgramLogics := (getAllProgramLogics example_sim)
           (''TL1'' := Inr [apply_plan example_logic example_plan
                              \<lparr>p_phase_indices = [2], s_phase_indices = [[5]]\<rparr>]),
        getProgram := (getProgram example_sim)(''TL1'' := Inr ''0''),
        written := [(''TL1'', apply_plan example_logic example_plan
                               \<lparr>p_phase_indices = [2], s_phase_indices = [[5]]\<rparr>)]\<rparr>,
      [(''U'', example_plan), (''N'', example_plan)])"
proof -
  let ?pend = "[(''Y'', example_plan), (''U'', example_plan), (''N'', example_plan),
                    (''X'', example_plan)]"
  let ?p1 = "[(''U'', example_plan), (''N'', example_plan), (''X'', example_plan)]"
  have y: "apply_entry example_cfg 1 ''Y'' (example_sim, ?pend) = (example_sim, ?p1)"
    by (simp add: apply_entry_def check_entry_def example_cfg_def example_sim_def
        AList.delete_eq)
  have u: "apply_entry example_cfg 1 ''U'' (example_sim, ?p1) = (example_sim, ?p1)"
    by (simp add: apply_entry_def example_cfg_def)
  have n: "apply_entry example_cfg 1 ''N'' (example_sim, ?p1) = (example_sim, ?p1)"
    by (simp add: apply_entry_def check_entry_def cycle_about_to_reset_def example_cfg_def
      example_sim_def example_logic_def)
  have x: "apply_entry example_cfg 1 ''X'' (example_sim, ?p1) =
     (example_sim\<lparr>
        getAllProgramLogics := (getAllProgramLogics example_sim)
           (''TL1'' := Inr [apply_plan example_logic example_plan
                              \<lparr>p_phase_indices = [2], s_phase_indices = [[5]]\<rparr>]),
        getProgram := (getProgram example_sim)(''TL1'' := Inr ''0''),
        written := [(''TL1'', apply_plan example_logic example_plan
                               \<lparr>p_phase_indices = [2], s_phase_indices = [[5]]\<rparr>)]\<rparr>,
      AList.delete ''X'' ?p1)"
    by (rule example_apply_entry) (simp_all add: example_cfg_def)
  show ?thesis
    by (simp add: apply_pending_updates_on_cycle_start_def y u n x AList.delete_eq)
qed

theorem actuation_faults_handled_per_entry_witness:
  "get_traffic_light_id example_cfg ''Y'' = Some ''TL_gone'' \<and>
   getAllProgramLogics example_sim ''TL_gone''
     = Inl (TraCIException ''Traffic light does not exist'') \<and>
   str_in ''does not exist'' ''Traffic light does not exist'' \<and>
   get_traffic_light_id example_cfg ''U'' = None \<and>
   get_traffic_light_id example_cfg ''N'' = Some ''TL1'' \<and>
   get_phase_info example_cfg ''N'' = None \<and>
   apply_entry example_cfg 1 ''Y'' (example_sim, [(''Y'', example_plan), (''X'', example_plan)])
     = (example_sim, [(''X'', example_plan)]) \<and>
   apply_entry example_cfg 1 ''U'' (example_sim, [(''U'', example_plan)])
     = (example_sim, [(''U'', example_plan)]) \<and>
   apply_entry example_cfg 1 ''N'' (example_sim, [(''N'', example_plan)])
     = (example_sim, [(''N'', example_plan)]) \<and>
   snd (apply_pending_updates_on_cycle_start example_cfg 1
     (example_sim, [(''Y'', example_plan), (''U'', example_plan), (''N'', example_plan),
                    (''X'', example_plan)]))
     = [(''U'', example_plan), (''N'', example_plan)] \<and>
   map (\<lambda>(t, l). (t, map duration (phases l)))
     (written (fst (apply_pending_updates_on_cycle_start example_cfg 1
        (example_sim, [(''Y'', example_plan), (''U'', example_plan), (''N'', example_plan),
                       (''X'', example_plan)]))))
     = [(''TL1'', [20, 3, 30, 3, 15, 12, 4])]"
proof -
  have a: "get_traffic_light_id example_cfg ''Y'' = Some ''TL_gone''"
    "get_traffic_light_id example_cfg ''U'' = None"
    "get_traffic_light_id example_cfg ''N'' = Some ''TL1''"
    "get_phase_info example_cfg ''N'' = None"
    by (simp_all add: example_cfg_def)
  have b: "getAllProgramLogics example_sim ''TL_gone''
     = Inl (TraCIException ''Traffic light does not exist'')"
    by (simp add: example_sim_def)
  have n: "check_entry example_cfg 1 ''N'' ''TL1'' (example_sim, [(''N'', example_plan)])
      = Inr (example_sim, [(''N'', example_plan)])"
    by (simp add: check_entry_def cycle_about_to_reset_def example_cfg_def
      example_sim_def example_logic_def)
  have e: "map duration (phases (apply_plan example_logic example_plan
             \<lparr>p_phase_indices = [2], s_phase_indices = [[5]]\<rparr>)) = [20, 3, 30, 3, 15, 12, 4]"
    by (simp add: example_logic_def example_plan_def apply_plan_def secondary_phases_def
        set_duration_def)
  note t1 = actuation_faults_handled_per_entry [of example_cfg "''Y''" "''TL_gone''" example_sim
      "''Traffic light does not exist''" 1 "[(''Y'', example_plan), (''X'', example_plan)]"]
  note t2 = actuation_faults_handled_per_entry [of example_cfg "''U''" _ example_sim _ 1 "[(''U'', example_plan)]"]
  note t3 = actuation_faults_handled_per_entry [of example_cfg "''N''" "''TL1''" example_sim _ 1 "[(''N'', example_plan)]"]
  have r1: "apply_entry example_cfg 1 ''Y''
       (example_sim, [(''Y'', example_plan), (''X'', example_plan)])
     = (example_sim, [(''X'', example_plan)])"
    using t1 a(1) b does_not_exist_in_message by (simp add: AList.delete_eq)
  have r2: "apply_entry example_cfg 1 ''U'' (example_sim, [(''U'', example_plan)])
     = (example_sim, [(''U'', example_plan)])"
    using t2 a(2) by simp
  have r3: "apply_entry example_cfg 1 ''N'' (example_sim, [(''N'', example_plan)])
     = (example_sim, [(''N'', example_plan)])"
    using t3 a(3,4) n by simp
  show ?thesis
    unfolding example_pass r1 r2 r3
    using a b e does_not_exist_in_message by (simp add: example_sim_def)
qed

lemma dict_update_Cons:
  "dict_update pend ((k, v) # g) = dict_update (AList.update k v pend) g"
  by (simp add: dict_update_def)

lemma distinct_dict_update:
  "distinct (map fst pend) \<Longrightarrow> distinct (map fst (dict_update pend g))"
proof (induction g arbitrary: pend)
  case Nil
  then show ?case by (simp add: dict_update_def)
next
  case (Cons e g)
  obtain k v where e: "e = (k, v)" by (cases e)
  show ?case unfolding e dict_update_Cons
    by (rule Cons.IH) (simp add: distinct_update Cons.prems)
qed

lemma dict_update_other:
  "x \<notin> fst ` set g \<Longrightarrow> map_of (dict_update pend g) x = map_of pend x"
proof (induction g arbitrary: pend)
  case Nil
  then show ?case by (simp add: dict_update_def)
next
  case (Cons e g)
  obtain k v where e: "e = (k, v)" by (cases e)
  from Cons.prems have "x \<noteq> k" "x \<notin> fst ` set g" by (auto simp: e)
  then show ?case unfolding e dict_update_Cons
    by (simp add: Cons.IH update_conv')
qed

lemma dict_update_published:
  "distinct (map fst g) \<Longrightarrow> map_of g x = Some v \<Longrightarrow> map_of (dict_update pend g) x = Some v"
proof (induction g arbitrary: pend)
  case Nil
  then show ?case by simp
next
  case (Cons e g)
  obtain k u where e: "e = (k, u)" by (cases e)
  show ?case
  proof (cases "x = k")
    case True
    with Cons.prems have "u = v" "x \<notin> fst ` set g" by (auto simp: e)
    then show ?thesis unfolding e dict_update_Cons
      using True by (simp add: dict_update_other update_conv')
  next
    case False
    with Cons.prems have "distinct (map fst g)" "map_of g x = Some v" by (auto simp: e)
    then show ?thesis unfolding e dict_update_Cons by (rule Cons.IH)
  qed
qed

lemma single_entry:
  "distinct (map fst xs) \<Longrightarrow> map_of xs x = Some v \<Longrightarrow> filter (\<lambda>e. fst e = x) xs = [(x, v)]"
proof (induction xs)
  case Nil
  then show ?case by simp
next
  case (Cons e xs)
  show ?case
  proof (cases "fst e = x")
    case True
    with Cons.prems have "e = (x, v)" "x \<notin> fst ` set xs" by (auto simp: prod_eq_iff)
    moreover from this have "filter (\<lambda>e. fst e = x) xs = []"
      by (auto simp: filter_empty_conv)
    ultimately show ?thesis by simp
  next
    case False
    with Cons show ?thesis by auto
  qed
qed

lemma prepare_logic_update_drains:
  assumes "is_active sh" "green_times sh = Some g" "g \<noteq> []"
  shows "prepare_logic_update (sh, pend) = (sh\<lparr>green_times := None\<rparr>, dict_update pend g)"
  using assms by (simp add: prepare_logic_update_def)

section \<open>The pending-plan store\<close>

text \<open>
  Claim C3. Let a plan \<open>P1\<close> for intersection \<open>x\<close> be published and drained into the
  store, and then a plan \<open>P2\<close> for \<open>x\<close> be published and drained, the dictionaries
  having one entry per key as Python dictionaries do. Then the store holds one entry per
  intersection, the only entry for \<open>x\<close> is \<open>P2\<close> (it is what the actuator reads as
  \<^verbatim>\<open>pending_logic_updates[int_id]\<close>), and after each drain the channel has no
  \<^verbatim>\<open>green_times\<close> entry, so that draining again changes nothing.
\<close>

theorem last_plan_wins_and_channel_cleared:
  assumes "is_active sh1" "green_times sh1 = Some g1" "map_of g1 x = Some P1"
    and "prepare_logic_update (sh1, pend0) = (sh1', pend1)"
    and "is_active sh2" "green_times sh2 = Some g2" "map_of g2 x = Some P2"
    and "prepare_logic_update (sh2, pend1) = (sh2', pend2)"
    and "distinct (map fst g1)" "distinct (map fst g2)" "distinct (map fst pend0)"
  shows "map_of pend1 x = Some P1 \<and>
         map_of pend2 x = Some P2 \<and>
         distinct (map fst pend1) \<and> distinct (map fst pend2) \<and>
         filter (\<lambda>e. fst e = x) pend2 = [(x, P2)] \<and>
         green_times sh1' = None \<and> green_times sh2' = None \<and>
         prepare_logic_update (sh1', pend1) = (sh1', pend1) \<and>
         prepare_logic_update (sh2', pend2) = (sh2', pend2)"
proof -
  have g: "g1 \<noteq> []" "g2 \<noteq> []" using assms(3,7) by auto
  have 1: "sh1' = sh1\<lparr>green_times := None\<rparr>" "pend1 = dict_update pend0 g1"
    using assms(4) prepare_logic_update_drains [OF assms(1,2) g(1), of pend0] by simp_all
  have 2: "sh2' = sh2\<lparr>green_times := None\<rparr>" "pend2 = dict_update pend1 g2"
    using assms(8) prepare_logic_update_drains [OF assms(5,6) g(2), of pend1] by simp_all
  have d1: "distinct (map fst pend1)" unfolding 1 by (rule distinct_dict_update [OF assms(11)])
  have d2: "distinct (map fst pend2)" unfolding 2 by (rule distinct_dict_update [OF d1])
  have m1: "map_of pend1 x = Some P1"
    unfolding 1 by (rule dict_update_published [OF assms(9) assms(3)])
  have m2: "map_of pend2 x = Some P2"
    unfolding 2 by (rule dict_update_published [OF assms(10) assms(7)])
  show ?thesis
    using d1 d2 m1 m2 single_entry [OF d2 m2]
    by (simp add: 1(1) 2(1) prepare_logic_update_def)
qed

theorem last_plan_wins_and_channel_cleared_witness:
  "map_of [(''X'', example_plan)] ''X'' = Some example_plan \<and>
   map_of [(''X'', two_secondary_plan)] ''X'' = Some two_secondary_plan \<and>
   prepare_logic_update (\<lparr>is_active = True, green_times = Some [(''X'', example_plan)]\<rparr>, [])
     = (\<lparr>is_active = True, green_times = None\<rparr>, [(''X'', example_plan)]) \<and>
   prepare_logic_update
     (\<lparr>is_active = True, green_times = Some [(''X'', two_secondary_plan)]\<rparr>,
      [(''X'', example_plan)])
     = (\<lparr>is_active = True, green_times = None\<rparr>, [(''X'', two_secondary_plan)]) \<and>
   filter (\<lambda>e. fst e = ''X'') [(''X'', two_secondary_plan)] = [(''X'', two_secondary_plan)] \<and>
   prepare_logic_update (\<lparr>is_active = True, green_times = None\<rparr>, [(''X'', two_secondary_plan)])
     = (\<lparr>is_active = True, green_times = None\<rparr>, [(''X'', two_secondary_plan)])"
proof -
  let ?sh1 = "\<lparr>is_active = True, green_times = Some [(''X'', example_plan)]\<rparr>"
  let ?sh2 = "\<lparr>is_active = True, green_times = Some [(''X'', two_secondary_plan)]\<rparr>"
  let ?sh' = "\<lparr>is_active = True, green_times = None\<rparr>"
  have p1: "prepare_logic_update (?sh1, []) = (?sh', [(''X'', example_plan)])"
    by (simp add: prepare_logic_update_def dict_update_def)
  have p2: "prepare_logic_update (?sh2, [(''X'', example_plan)])
      = (?sh', [(''X'', two_secondary_plan)])"
    by (simp add: prepare_logic_update_def dict_update_def)
  have "is_active ?sh1" "green_times ?sh1 = Some [(''X'', example_plan)]"
    "map_of [(''X'', example_plan)] ''X'' = Some example_plan"
    "is_active ?sh2" "green_times ?sh2 = Some [(''X'', two_secondary_plan)]"
    "map_of [(''X'', two_secondary_plan)] ''X'' = Some two_secondary_plan"
    "distinct (map fst [(''X'', example_plan)])"
    "distinct (map fst [(''X'', two_secondary_plan)])"
    "distinct (map fst ([] :: pending))"
    by simp_all
  from last_plan_wins_and_channel_cleared [OF this(1,2,3) p1 this(4,5,6) p2 this(7,8,9)] p1 p2
  show ?thesis by simp
qed

lemma aggregated_other:
  "i \<notin> fst ` set qs \<Longrightarrow>
   map_of (fold (\<lambda>(int_id, data). AList.update int_id (f data)) qs acc) i = map_of acc i"
  by (induction qs arbitrary: acc) (auto simp: update_conv')

lemma aggregated_entry:
  "distinct (map fst qs) \<Longrightarrow> (i, b) \<in> set qs \<Longrightarrow>
   map_of (fold (\<lambda>(int_id, data). AList.update int_id (f data)) qs acc) i = Some (f b)"
proof (induction qs arbitrary: acc)
  case Nil
  then show ?case by simp
next
  case (Cons e qs)
  obtain k u where e: "e = (k, u)" by (cases e)
  show ?case
  proof (cases "(i, b) = (k, u)")
    case True
    with Cons.prems have "k \<notin> fst ` set qs" by (auto simp: e)
    then have "map_of (fold (\<lambda>(int_id, data). AList.update int_id (f data)) qs
                 (AList.update k (f u) acc)) k = map_of (AList.update k (f u) acc) k"
      by (rule aggregated_other)
    then show ?thesis using True by (simp add: e update_conv')
  next
    case False
    with Cons.prems have "distinct (map fst qs)" "(i, b) \<in> set qs" by (auto simp: e)
    then show ?thesis by (simp add: e Cons.IH)
  qed
qed

section \<open>Aggregation\<close>

text \<open>
  Claim C6, amended. At an aggregation event, the network-wide measurement is the
  arithmetic mean of the network-wide buffer when this buffer is not empty and keeps its
  previous value when it is empty; the measurements of every intersection are the means of
  its primary and secondary buffers, the mean of an empty buffer being 0 and that of
  \<open>[a, b, c]\<close> being \<open>(a + b + c) / 3\<close>; and afterwards the network-wide buffer and
  every primary and secondary buffer of every intersection are empty.
\<close>

theorem aggregation_means_and_cleared_buffers:
  assumes "current_time \<ge> next_aggregation_time st"
  shows
    "(n_samples st \<noteq> [] \<longrightarrow>
        latest_aggregated_n (aggregation_stage env current_time st)
          = sum_list (n_samples st) / real (length (n_samples st))) \<and>
     (n_samples st = [] \<longrightarrow>
        latest_aggregated_n (aggregation_stage env current_time st) = latest_aggregated_n st) \<and>
     (distinct (map fst (queue_samples st)) \<longrightarrow>
        (\<forall>(i, b) \<in> set (queue_samples st).
           map_of (latest_aggregated_queue_lengths (aggregation_stage env current_time st)) i
             = Some \<lparr>avg_p = mean_or_zero (p_samples b),
                     avg_s = map mean_or_zero (s_samples b)\<rparr>)) \<and>
     mean_or_zero [a, b, c] = (a + b + c) / 3 \<and>
     mean_or_zero [] = 0 \<and>
     n_samples (aggregation_stage env current_time st) = [] \<and>
     map fst (queue_samples (aggregation_stage env current_time st))
       = map fst (queue_samples st) \<and>
     (\<forall>(i, b) \<in> set (queue_samples (aggregation_stage env current_time st)).
        p_samples b = [] \<and> (\<forall>xs \<in> set (s_samples b). xs = []))"
proof -
  have "distinct (map fst (queue_samples st)) \<longrightarrow>
        (\<forall>(i, b) \<in> set (queue_samples st).
           map_of (latest_aggregated_queue_lengths (aggregation_stage env current_time st)) i
             = Some \<lparr>avg_p = mean_or_zero (p_samples b),
                     avg_s = map mean_or_zero (s_samples b)\<rparr>)"
    using assms
    by (auto simp: aggregation_stage_def Let_def clear_samples_def
        aggregated_entry [where f = "\<lambda>data. \<lparr>avg_p = mean_or_zero (p_samples data),
                           avg_s = map mean_or_zero (s_samples data)\<rparr>"])
  moreover have "mean_or_zero [a, b, c] = (a + b + c) / 3" "mean_or_zero [] = 0"
    by (simp_all add: mean_or_zero_def)
  moreover have "map fst (queue_samples (aggregation_stage env current_time st))
       = map fst (queue_samples st)"
    using assms by (simp add: aggregation_stage_def Let_def clear_samples_def split_def comp_def)
  moreover have "\<forall>(i, b) \<in> set (queue_samples (aggregation_stage env current_time st)).
        p_samples b = [] \<and> (\<forall>xs \<in> set (s_samples b). xs = [])"
    using assms by (auto simp: aggregation_stage_def Let_def clear_samples_def)
  ultimately show ?thesis
    using assms by (simp add: aggregation_stage_def Let_def clear_samples_def)
qed

lemma summary_the:
  "map_option run_summary r = Some (a, b, c, d, e, f, g) \<Longrightarrow>
   r \<noteq> None \<and> aggregation_counts (events (the r)) = a \<and> n_samples (the r) = b \<and>
   latest_aggregated_n (the r) = c \<and> next_sampling_time (the r) = d \<and>
   next_aggregation_time (the r) = e \<and> pending_logic_updates (the r) = f \<and>
   written_durations (sim (the r)) = g"
  by (cases r) (auto simp: run_summary_def)

text \<open>
  Claim C6 as stated fails for the network-wide buffer: with sampling every 30 seconds and
  aggregation every 10 seconds, the second aggregation finds the buffer empty (the counts
  are 1 and 0) and the network-wide measurement stays at 80 / 3, the mean of the first
  window, instead of becoming 0.
\<close>

theorem aggregation_means_and_cleared_buffers_counterexample:
  "sampling_interval_s sparse_env = 30 \<and> aggregation_interval_s sparse_env = 10 \<and>
   map_option run_summary (example_run sparse_env 0 19)
     = Some ([1, 0], [], 80 / 3, 30, 30, [], [])"
  by code_simp

lemma one_round:
  "map_option run_summary (example_run example_env 0 1) = Some ([], [80 / 3], 80 / 3, 10, 50, [], [])"
  by code_simp

theorem aggregation_means_and_cleared_buffers_witness:
  "next_aggregation_time (the (example_run example_env 0 1)) \<le> 50 \<and>
   n_samples (the (example_run example_env 0 1)) = [80 / 3] \<and>
   latest_aggregated_n (aggregation_stage example_env 50 (the (example_run example_env 0 1)))
     = 80 / 3 \<and>
   n_samples (aggregation_stage example_env 50 (the (example_run example_env 0 1))) = []"
proof -
  note r = summary_the [OF one_round]
  have h: "50 \<ge> next_aggregation_time (the (example_run example_env 0 1))"
    using r by simp
  show ?thesis
    using aggregation_means_and_cleared_buffers [OF h, of example_env] r by simp
qed

lemma run_99:
  "map_option run_summary (example_run example_env 0 99)
     = Some ([6, 5], [], 80 / 3, 110, 150, [], [(''TL1'', [20, 3, 30, 3, 15, 12, 4])])"
  by code_simp

section \<open>The cadence of sampling and aggregation\<close>

text \<open>
  Claim C8 as stated fails at the first aggregation: with sampling every 10 seconds,
  aggregation every 50 seconds and a clock that advances by one second per step from 0,
  the aggregation at time 50 finds 6 samples in the network-wide buffer, not 5. The first
  sampling time is 0, so the first round of the loop samples at once (at time 2), and the
  samples at 10, 20, 30, 40 and 50 follow.
\<close>

theorem sample_counts_and_fixed_intervals_counterexample:
  "sampling_interval_s example_env = 10 \<and> aggregation_interval_s example_env = 50 \<and>
   map_option getTime (map_option sim (example_run example_env 0 49)) = Some (Inr 50) \<and>
   map_option run_summary (example_run example_env 0 49)
     = Some ([6], [], 80 / 3, 60, 100, [], [])"
  by code_simp

text \<open>
  Claim C8, amended. A sampling stage that fires moves the next sampling time on by the
  sampling interval from its previous value and adds one sample to the network-wide
  buffer; one that does not fire changes nothing. An aggregation stage that fires moves
  the next aggregation time on by the aggregation interval from its previous value,
  records the number of samples it found and leaves the buffer empty; one that does not
  fire changes nothing. With a sampling interval of 10 seconds, an aggregation interval of
  50 seconds and a clock advancing by one second per step from 0, the aggregation at time
  50 finds 6 samples and the one at time 100 finds exactly 5; after it the buffer is
  empty, the next sampling time is 110 and the next aggregation time is 150.
\<close>

theorem sample_counts_and_fixed_intervals:
  "(current_time \<ge> next_sampling_time st \<and> sampling_stage env current_time st = Inr st1 \<longrightarrow>
      next_sampling_time st1 = next_sampling_time st + sampling_interval_s env \<and>
      length (n_samples st1) = length (n_samples st) + 1) \<and>
   (\<not> current_time \<ge> next_sampling_time st \<longrightarrow> sampling_stage env current_time st = Inr st) \<and>
   (current_time \<ge> next_aggregation_time st \<longrightarrow>
      next_aggregation_time (aggregation_stage env current_time st)
        = next_aggregation_time st + aggregation_interval_s env \<and>
      events (aggregation_stage env current_time st)
        = events st @ [Aggregation (length (n_samples st))] \<and>
      n_samples (aggregation_stage env current_time st) = []) \<and>
   (\<not> current_time \<ge> next_aggregation_time st \<longrightarrow>
      aggregation_stage env current_time st = st) \<and>
   sampling_interval_s example_env = 10 \<and> aggregation_interval_s example_env = 50 \<and>
   aggregation_counts (events (the (example_run example_env 0 99))) = [6, 5] \<and>
   n_samples (the (example_run example_env 0 99)) = [] \<and>
   next_sampling_time (the (example_run example_env 0 99)) = 110 \<and>
   next_aggregation_time (the (example_run example_env 0 99)) = 150"
proof -
  have a: "current_time \<ge> next_sampling_time st \<and> sampling_stage env current_time st = Inr st1 \<longrightarrow>
      next_sampling_time st1 = next_sampling_time st + sampling_interval_s env \<and>
      length (n_samples st1) = length (n_samples st) + 1"
    by (auto simp: sampling_stage_def split: sum.splits)
  have b: "\<not> current_time \<ge> next_sampling_time st \<longrightarrow> sampling_stage env current_time st = Inr st"
    by (simp add: sampling_stage_def)
  have c: "current_time \<ge> next_aggregation_time st \<longrightarrow>
      next_aggregation_time (aggregation_stage env current_time st)
        = next_aggregation_time st + aggregation_interval_s env \<and>
      events (aggregation_stage env current_time st)
        = events st @ [Aggregation (length (n_samples st))] \<and>
      n_samples (aggregation_stage env current_time st) = []"
    by (simp add: aggregation_stage_def Let_def clear_samples_def)
  have d: "\<not> current_time \<ge> next_aggregation_time st \<longrightarrow>
      aggregation_stage env current_time st = st"
    by (simp add: aggregation_stage_def)
  have e: "sampling_interval_s example_env = 10" "aggregation_interval_s example_env = 50"
    by (simp_all add: example_env_def)
  note r = summary_the [OF run_99]
  show ?thesis using a b c d e r by blast
qed

theorem sample_counts_and_fixed_intervals_witness:
  "next_sampling_time (the (example_run example_env 0 1)) \<le> 10 \<and>
   \<not> isl (sampling_stage example_env 10 (the (example_run example_env 0 1))) \<and>
   next_sampling_time (projr (sampling_stage example_env 10 (the (example_run example_env 0 1))))
     = 20 \<and>
   next_aggregation_time (the (example_run example_env 0 1)) \<le> 50 \<and>
   next_aggregation_time (aggregation_stage example_env 50 (the (example_run example_env 0 1)))
     = 100 \<and>
   \<not> 49 \<ge> next_aggregation_time (the (example_run example_env 0 1)) \<and>
   aggregation_stage example_env 49 (the (example_run example_env 0 1))
     = the (example_run example_env 0 1) \<and>
   \<not> 9 \<ge> next_sampling_time (the (example_run example_env 0 1)) \<and>
   sampling_stage example_env 9 (the (example_run example_env 0 1))
     = Inr (the (example_run example_env 0 1))"
proof -
  let ?st = "the (example_run example_env 0 1)"
  let ?s1 = "projr (sampling_stage example_env 10 ?st)"
  note r = summary_the [OF one_round]
  have ns: "next_sampling_time ?st = 10" and na: "next_aggregation_time ?st = 50"
    using r by simp_all
  have i: "\<not> isl (sampling_stage example_env 10 ?st)" by code_simp
  then have s: "sampling_stage example_env 10 ?st = Inr ?s1"
    by simp
  have e: "sampling_interval_s example_env = 10" "aggregation_interval_s example_env = 50"
    by (simp_all add: example_env_def)
  have h10: "10 \<ge> next_sampling_time ?st" and h9: "\<not> 9 \<ge> next_sampling_time ?st"
    and h50: "50 \<ge> next_aggregation_time ?st" and h49: "\<not> 49 \<ge> next_aggregation_time ?st"
    unfolding ns na by simp_all
  have 1: "next_sampling_time ?s1 = next_sampling_time ?st + sampling_interval_s example_env"
    using sample_counts_and_fixed_intervals [where current_time = 10 and st = ?st and env = example_env
                and ?st1.0 = ?s1, THEN conjunct1] h10 s
    by blast
  have 2: "sampling_stage example_env 9 ?st = Inr ?st"
    using sample_counts_and_fixed_intervals [where current_time = 9 and st = ?st and env = example_env,
                THEN conjunct2, THEN conjunct1] h9
    by blast
  have 3: "next_aggregation_time (aggregation_stage example_env 50 ?st)
             = next_aggregation_time ?st + aggregation_interval_s example_env"
    using sample_counts_and_fixed_intervals [where current_time = 50 and st = ?st and env = example_env,
                THEN conjunct2, THEN conjunct2, THEN conjunct1] h50
    by blast
  have 4: "aggregation_stage example_env 49 ?st = ?st"
    using sample_counts_and_fixed_intervals [where current_time = 49 and st = ?st and env = example_env,
                THEN conjunct2, THEN conjunct2, THEN conjunct2, THEN conjunct1] h49
    by blast
  have n1: "next_sampling_time ?s1 = 20" unfolding 1 ns e by simp
  have n3: "next_aggregation_time (aggregation_stage example_env 50 ?st) = 100"
    unfolding 3 na e by simp
  show ?thesis
    using h10 h9 h50 h49 i n1 2 n3 4 by blast
qed

section \<open>The order of the stages in a round of the loop\<close>

lemma sampling_stage_frame:
  assumes "sampling_stage env t st = Inr st1"
  shows "sim st1 = sim st \<and> pending_logic_updates st1 = pending_logic_updates st \<and>
         shared st1 = shared st \<and> controller st1 = controller st \<and>
         sim_step st1 = sim_step st \<and> n_previous st1 = n_previous st \<and>
         qg_previous st1 = qg_previous st \<and>
         next_aggregation_time st1 = next_aggregation_time st \<and>
         next_control_time st1 = next_control_time st \<and>
         events st1 = events st @ (if t \<ge> next_sampling_time st then [Sampling] else [])"
  using assms by (auto simp: sampling_stage_def split: if_splits sum.splits)

lemma aggregation_stage_frame:
  "sim (aggregation_stage env t st) = sim st \<and>
   pending_logic_updates (aggregation_stage env t st) = pending_logic_updates st \<and>
   shared (aggregation_stage env t st) = shared st \<and>
   controller (aggregation_stage env t st) = controller st \<and>
   sim_step (aggregation_stage env t st) = sim_step st \<and>
   n_previous (aggregation_stage env t st) = n_previous st \<and>
   qg_previous (aggregation_stage env t st) = qg_previous st \<and>
   next_control_time (aggregation_stage env t st) = next_control_time st \<and>
   events (aggregation_stage env t st)
     = events st @ (if t \<ge> next_aggregation_time st
                    then [Aggregation (length (n_samples st))] else [])"
  by (simp add: aggregation_stage_def Let_def split_def)

lemma control_stage_frame:
  assumes "control_stage env t st = Inr st3"
  shows "sim st3 = sim st \<and> sim_step st3 = sim_step st \<and>
         events st3 = events st @ (if t \<ge> next_control_time st then [Control] else []) \<and>
         (t \<ge> next_control_time st \<longrightarrow>
            (\<exists>c' qg sh.
               run_simulation_step env (controller st) (latest_aggregated_n st) (n_previous st)
                 (qg_previous st) (latest_aggregated_queue_lengths st) (shared st)
                 = Inr (c', qg, sh) \<and>
               pending_logic_updates st3
                 = snd (prepare_logic_update (sh, pending_logic_updates st)))) \<and>
         (\<not> t \<ge> next_control_time st \<longrightarrow> st3 = st)"
  using assms
  by (auto simp: control_stage_def Let_def split_def split: if_splits sum.splits)

lemma actuation_stage_frame:
  "events (actuation_stage env st) = events st @ [Actuation] \<and>
   (sim (actuation_stage env st), pending_logic_updates (actuation_stage env st))
     = apply_pending_updates_on_cycle_start (intersection_config_mgr env) (sim_step st)
         (sim st, pending_logic_updates st)"
  by (simp add: actuation_stage_def Let_def split_def)

lemma loop_body_stages:
  assumes "loop_body env st = Inr (st', stop)"
  shows "\<exists>t w1 st1 st3.
           sumo_step env (sim st) = Inr w1 \<and> getTime w1 = Inr t \<and>
           sampling_stage env t (st\<lparr>sim := w1\<rparr>) = Inr st1 \<and>
           control_stage env t (aggregation_stage env t st1) = Inr st3 \<and>
           events st' = events (actuation_stage env st3) \<and>
           sim st' = sim (actuation_stage env st3) \<and>
           pending_logic_updates st' = pending_logic_updates (actuation_stage env st3)"
  using assms
  by (auto simp: loop_body_def Let_def split: sum.splits if_splits)

text \<open>
  Claim C4, amended. A round of the loop that ends without an exception runs sampling,
  aggregation, control and actuation in that order, each of the first three only when its
  time has come and the actuation always. The actuation pass runs on the simulator of this
  round and on the pending-plan store as the control stage of the same round leaves it;
  when the control stage fires, this store is the one before the round with the plans that
  the controller has just published drained into it, and otherwise it is the store before
  the round. So a plan computed in a round's control stage is in the store for the
  actuation pass of the same round, and is applied in that round when its intersection is
  at the cycle boundary.
\<close>

theorem stages_run_in_order:
  assumes "loop_body env st = Inr (st', stop)"
  shows "\<exists>t w1 st1 st2 st3.
           sumo_step env (sim st) = Inr w1 \<and> getTime w1 = Inr t \<and>
           sampling_stage env t (st\<lparr>sim := w1\<rparr>) = Inr st1 \<and>
           st2 = aggregation_stage env t st1 \<and>
           control_stage env t st2 = Inr st3 \<and>
           events st' =
             events st @ (if t \<ge> next_sampling_time st then [Sampling] else [])
               @ (if t \<ge> next_aggregation_time st
                  then [Aggregation (length (n_samples st1))] else [])
               @ (if t \<ge> next_control_time st then [Control] else [])
               @ [Actuation] \<and>
           (sim st', pending_logic_updates st')
             = apply_pending_updates_on_cycle_start (intersection_config_mgr env) (sim_step st)
                 (w1, pending_logic_updates st3) \<and>
           (t \<ge> next_control_time st \<longrightarrow>
              (\<exists>c' qg sh.
                 run_simulation_step env (controller st2) (latest_aggregated_n st2)
                   (n_previous st2) (qg_previous st2) (latest_aggregated_queue_lengths st2)
                   (shared st2) = Inr (c', qg, sh) \<and>
                 pending_logic_updates st3
                   = snd (prepare_logic_update (sh, pending_logic_updates st)))) \<and>
           (\<not> t \<ge> next_control_time st \<longrightarrow>
              pending_logic_updates st3 = pending_logic_updates st)"
proof -
  from loop_body_stages [OF assms] obtain t w1 st1 st3 where
    s: "sumo_step env (sim st) = Inr w1" "getTime w1 = Inr t"
       "sampling_stage env t (st\<lparr>sim := w1\<rparr>) = Inr st1"
       "control_stage env t (aggregation_stage env t st1) = Inr st3"
    and r: "events st' = events (actuation_stage env st3)"
       "sim st' = sim (actuation_stage env st3)"
       "pending_logic_updates st' = pending_logic_updates (actuation_stage env st3)"
    by blast
  let ?st2 = "aggregation_stage env t st1"
  note f1 = sampling_stage_frame [OF s(3)]
  note f2 = aggregation_stage_frame [of env t st1]
  note f3 = control_stage_frame [OF s(4)]
  note f4 = actuation_stage_frame [of env st3]
  have ev: "events st' =
             events st @ (if t \<ge> next_sampling_time st then [Sampling] else [])
               @ (if t \<ge> next_aggregation_time st
                  then [Aggregation (length (n_samples st1))] else [])
               @ (if t \<ge> next_control_time st then [Control] else [])
               @ [Actuation]"
    unfolding r(1) using f1 f2 f3 f4 by simp
  have act: "(sim st', pending_logic_updates st')
             = apply_pending_updates_on_cycle_start (intersection_config_mgr env) (sim_step st)
                 (w1, pending_logic_updates st3)"
    unfolding r(2,3) using f1 f2 f3 f4 by simp
  have c1: "t \<ge> next_control_time st \<longrightarrow>
              (\<exists>c' qg sh.
                 run_simulation_step env (controller ?st2) (latest_aggregated_n ?st2)
                   (n_previous ?st2) (qg_previous ?st2) (latest_aggregated_queue_lengths ?st2)
                   (shared ?st2) = Inr (c', qg, sh) \<and>
                 pending_logic_updates st3
                   = snd (prepare_logic_update (sh, pending_logic_updates st)))"
    using f1 f2 f3 by simp
  have c2: "\<not> t \<ge> next_control_time st \<longrightarrow>
              pending_logic_updates st3 = pending_logic_updates st"
    using f1 f2 f3 by simp
  show ?thesis
    using s ev act c1 c2 by blast
qed

text \<open>
  Claim C4 as stated fails: from a simulator whose clock shows 88 the first round of the
  loop is at time 90. Before it the hand-off dictionary and the store hold no plan and no
  program has been written; in it the four stages run, the control stage among them; and
  at its end the plan has been written for \<open>TL1\<close> and the store is empty again. The plan
  was computed and actuated in the same round.
\<close>

theorem stages_run_in_order_counterexample:
  "green_times empty_shared = None \<and>
   map_option run_summary (example_run example_env 88 0)
     = Some ([], [], 80 / 3, 0, 50, [], []) \<and>
   map_option events (example_run example_env 88 1)
     = Some [Sampling, Aggregation 1, Control, Actuation] \<and>
   map_option run_summary (example_run example_env 88 1)
     = Some ([1], [], 80 / 3, 10, 100, [], [(''TL1'', [20, 3, 30, 3, 15, 12, 4])])"
  by code_simp


lemma start_at_88:
  "\<not> isl (loop_body example_env (the (example_run example_env 88 0)))"
  by code_simp

lemma round_at_90:
  "events (fst (projr (loop_body example_env (the (example_run example_env 88 0)))))
     = [Sampling, Aggregation 1, Control, Actuation]"
  "pending_logic_updates (fst (projr (loop_body example_env (the (example_run example_env 88 0)))))
     = []"
  "written_durations
     (sim (fst (projr (loop_body example_env (the (example_run example_env 88 0))))))
     = [(''TL1'', [20, 3, 30, 3, 15, 12, 4])]"
  "events (the (example_run example_env 88 0)) = []"
  "pending_logic_updates (the (example_run example_env 88 0)) = []"
  by code_simp+

theorem stages_run_in_order_witness:
  "\<not> isl (loop_body example_env (the (example_run example_env 88 0))) \<and>
   events (the (example_run example_env 88 0)) = [] \<and>
   pending_logic_updates (the (example_run example_env 88 0)) = [] \<and>
   events (fst (projr (loop_body example_env (the (example_run example_env 88 0)))))
     = [Sampling, Aggregation 1, Control, Actuation] \<and>
   last (events (fst (projr (loop_body example_env (the (example_run example_env 88 0))))))
     = Actuation \<and>
   pending_logic_updates (fst (projr (loop_body example_env (the (example_run example_env 88 0)))))
     = [] \<and>
   written_durations
     (sim (fst (projr (loop_body example_env (the (example_run example_env 88 0))))))
     = [(''TL1'', [20, 3, 30, 3, 15, 12, 4])]"
proof -
  let ?st = "the (example_run example_env 88 0)"
  let ?r = "projr (loop_body example_env ?st)"
  have lb: "loop_body example_env ?st = Inr (fst ?r, snd ?r)"
    using start_at_88 by simp
  from stages_run_in_order [OF lb] have l: "last (events (fst ?r)) = Actuation"
    by (elim exE conjE) simp
  show ?thesis
    using start_at_88 round_at_90 l by simp
qed


end
